theory Spec2Isabelle
  imports Main "HOL-Library.AList" "HOL-Library.Char_ord" "HOL-Library.List_Lexorder"
    "HOL-Library.Multiset" "HOL-Library.Finite_Map"
begin

section \<open>Strings and exceptions\<close>

text \<open>
  Python 2 byte strings are modelled as \<open>string\<close>. An exception is a value of
  \<open>py_error\<close>: \<open>IOError\<close> carries its errno, \<open>KeyError\<close> the missing key
  (\<open>None\<close> for the key \<open>None\<close>), \<open>ValueError\<close> is what unpacking a list of the
  wrong length raises.
\<close>

datatype py_error = IOError nat | KeyError "string option" | ValueError

definition ENOENT :: nat where
  "ENOENT = 2"

text \<open>The characters \<open>str.strip()\<close> removes: space, tab, newline, VT, FF, CR.\<close>

definition is_space :: "char \<Rightarrow> bool" where
  "is_space c \<longleftrightarrow> c \<in> {CHR '' '', CHR 0x09, CHR 0x0A, CHR 0x0B, CHR 0x0C, CHR 0x0D}"

definition strip :: "string \<Rightarrow> string" where
  "strip s = rev (dropWhile is_space (rev (dropWhile is_space s)))"

definition startswith :: "string \<Rightarrow> string \<Rightarrow> bool" where
  "startswith s p \<longleftrightarrow> take (length p) s = p"

text \<open>
  \<open>s.split(sep, 1)\<close> for a non-empty separator: the text before and after the first
  occurrence of \<open>sep\<close>, or \<open>None\<close> when \<open>sep\<close> does not occur (Python then returns
  a list of one element).
\<close>

fun split_once :: "string \<Rightarrow> string \<Rightarrow> (string \<times> string) option" where
  "split_once sep [] = None"
| "split_once sep (c # cs) =
     (if startswith (c # cs) sep then Some ([], drop (length sep) (c # cs))
      else map_option (\<lambda>(l, d). (c # l, d)) (split_once sep cs))"

text \<open>\<open>s.replace(a, b)\<close> for single characters \<open>a\<close> and \<open>b\<close>.\<close>

definition replace_char :: "char \<Rightarrow> char \<Rightarrow> string \<Rightarrow> string" where
  "replace_char a b s = map (\<lambda>c. if c = a then b else c) s"

text \<open>
  Iterating over a file yields its lines with the terminating newline kept; only the
  last line can lack one.
\<close>

fun readlines :: "string \<Rightarrow> string list" where
  "readlines [] = []"
| "readlines (c # cs) =
     (if c = CHR 0x0A then [c] # readlines cs
      else (case readlines cs of [] \<Rightarrow> [[c]] | l # ls \<Rightarrow> (c # l) # ls))"

section \<open>parse_packages\<close>

text \<open>
  A package is a Python dict from labels to values, here an association list read
  with \<open>map_of\<close> and written with \<open>AList.update\<close>. The generator's local state is
  the dict \<open>pkg\<close> under construction and \<open>label\<close> (\<open>None\<close> at the start of a
  paragraph).
\<close>

type_synonym pkg = "(string \<times> string) list"

text \<open>\<open>pkg[label] += v\<close>: a \<open>KeyError\<close> when the key is absent.\<close>

definition dict_append :: "pkg \<Rightarrow> string option \<Rightarrow> string \<Rightarrow> py_error + pkg" where
  "dict_append pkg label v =
     (case label of
        None \<Rightarrow> Inl (KeyError None)
      | Some l \<Rightarrow>
          (case map_of pkg l of
             None \<Rightarrow> Inl (KeyError (Some l))
           | Some old \<Rightarrow> Inr (AList.update l (old @ v) pkg)))"

text \<open>
  One iteration of the \<open>for line in stream\<close> loop: the package yielded in it, if any,
  and the next state; or the exception raised.
\<close>

definition parse_line ::
  "pkg \<times> string option \<Rightarrow> string \<Rightarrow> py_error + (pkg option \<times> (pkg \<times> string option))" where
  "parse_line st line =
     (let pkg = fst st; label = snd st in
      if strip line = [] then Inr (if pkg \<noteq> [] then Some pkg else None, ([], None))
      else if line = '' .'' then
        (case dict_append pkg label [CHR 0x0A, CHR 0x0A] of
           Inl e \<Rightarrow> Inl e
         | Inr pkg' \<Rightarrow> Inr (None, (pkg', label)))
      else if startswith line '' '' then
        (case dict_append pkg label (CHR 0x0A # strip (drop 1 line)) of
           Inl e \<Rightarrow> Inl e
         | Inr pkg' \<Rightarrow> Inr (None, (pkg', label)))
      else
        (case split_once '': '' line of
           None \<Rightarrow> Inl ValueError
         | Some (l, d) \<Rightarrow> Inr (None, (AList.update l (strip d) pkg, Some l))))"

text \<open>
  The loop: the packages yielded, in order, and the exception that ended the
  generator, if one did. When the stream is exhausted the generator returns; the
  state it holds then is dropped.
\<close>

fun parse_loop :: "pkg \<times> string option \<Rightarrow> string list \<Rightarrow> pkg list \<times> py_error option" where
  "parse_loop st [] = ([], None)"
| "parse_loop st (line # lines) =
     (case parse_line st line of
        Inl e \<Rightarrow> ([], Some e)
      | Inr (y, st') \<Rightarrow>
          (case parse_loop st' lines of
             (ys, r) \<Rightarrow> ((case y of None \<Rightarrow> [] | Some p \<Rightarrow> [p]) @ ys, r)))"

definition parse_packages :: "string list \<Rightarrow> pkg list \<times> py_error option" where
  "parse_packages stream = parse_loop ([], None) stream"


text \<open>A blank line is one that \<open>line.strip() == ''\<close> accepts.\<close>

definition blank :: "string \<Rightarrow> bool" where
  "blank line \<longleftrightarrow> strip line = []"

text \<open>
  The generator's state after the given lines, \<open>None\<close> once an exception was
  raised (used to reason about \<open>parse_loop\<close> on a stream cut in two).
\<close>

fun parse_state :: "pkg \<times> string option \<Rightarrow> string list \<Rightarrow> (pkg \<times> string option) option" where
  "parse_state st [] = Some st"
| "parse_state st (line # lines) =
     (case parse_line st line of Inl e \<Rightarrow> None | Inr (y, st') \<Rightarrow> parse_state st' lines)"

section \<open>Pool path and store namespace of a package\<close>

text \<open>
  \<open>urllib.unquote\<close> of Python 2 (standard library): every \<open>%XY\<close> with two
  hexadecimal digits becomes the byte of that value, any other \<open>%\<close> stays.
\<close>

definition hexdig :: "char \<Rightarrow> bool" where
  "hexdig c \<longleftrightarrow> c \<in> set ''0123456789ABCDEFabcdef''"

definition hexval :: "char \<Rightarrow> nat" where
  "hexval c =
     (if CHR ''0'' \<le> c \<and> c \<le> CHR ''9'' then of_char c - 48
      else if CHR ''a'' \<le> c \<and> c \<le> CHR ''f'' then of_char c - 87
      else of_char c - 55)"

fun unquote :: "string \<Rightarrow> string" where
  "unquote (c # h1 # h2 # rest) =
     (if c = CHR ''%'' \<and> hexdig h1 \<and> hexdig h2
      then char_of (16 * hexval h1 + hexval h2) # unquote rest
      else c # unquote (h1 # h2 # rest))"
| "unquote (c # cs) = c # unquote cs"
| "unquote [] = []"

text \<open>\<open>os.path.basename\<close> (posixpath): what follows the last slash.\<close>

definition basename :: "string \<Rightarrow> string" where
  "basename p = rev (takeWhile (\<lambda>c. c \<noteq> CHR ''/'') (rev p))"

text \<open>\<open>pkg[k]\<close>\<close>

definition dict_get :: "pkg \<Rightarrow> string \<Rightarrow> py_error + string" where
  "dict_get pkg k = (case map_of pkg k of None \<Rightarrow> Inl (KeyError (Some k)) | Some v \<Rightarrow> Inr v)"

text \<open>
  The local variables \<open>aptly_pool_filename\<close> and \<open>ref_base\<close> of the loop in
  \<open>image_from_lockfile\<close>, as functions of what they are computed from.
\<close>

definition aptly_pool_filename_of :: "string \<Rightarrow> string \<Rightarrow> string" where
  "aptly_pool_filename_of sha256 filename =
     take 2 sha256 @ ''/'' @ take 2 (drop 2 sha256) @ ''/'' @ drop 4 sha256 @ ''_'' @
     basename filename"

definition ref_base_of :: "string \<Rightarrow> string" where
  "ref_base_of aptly_pool_filename =
     ''deb/pool/'' @ replace_char CHR ''~'' CHR ''_'' (replace_char CHR ''+'' CHR ''_'' aptly_pool_filename)"

text \<open>
  What the loop body computes from a package before its first \<open>Rule.build\<close>:
  \<open>filename\<close>, \<open>pkg['SHA256']\<close>, \<open>aptly_pool_filename\<close> and \<open>ref_base\<close>, or
  the \<open>KeyError\<close> of the first missing field.
\<close>

definition package_names :: "pkg \<Rightarrow> py_error + (string \<times> string \<times> string \<times> string)" where
  "package_names pkg =
     (case dict_get pkg ''Filename'' of
        Inl e \<Rightarrow> Inl e
      | Inr fn \<Rightarrow>
          (let filename = unquote fn in
           case dict_get pkg ''SHA256'' of
             Inl e \<Rightarrow> Inl e
           | Inr sha \<Rightarrow>
               (let aptly_pool_filename = aptly_pool_filename_of sha filename
                in Inr (filename, sha, aptly_pool_filename, ref_base_of aptly_pool_filename))))"

text \<open>
  The claimed derivation, in the words of the specification: the pool path is built
  from the digest and the basename of the record's \<open>Filename\<close>, and the store
  namespace is the pool path with \<open>+\<close> and \<open>~\<close> replaced.
\<close>

definition spec_pool_path :: "string \<Rightarrow> string \<Rightarrow> string" where
  "spec_pool_path D Filename =
     take 2 D @ ''/'' @ take 2 (drop 2 D) @ ''/'' @ drop 4 D @ ''_'' @ basename Filename"

definition spec_namespace :: "string \<Rightarrow> string" where
  "spec_namespace pool = map (\<lambda>c. if c = CHR ''+'' \<or> c = CHR ''~'' then CHR ''_'' else c) pool"

section \<open>The download_deb rule\<close>

text \<open>
  The shell script of the rule, up to the test that follows its loop. The world
  outside is two functions: \<open>env_curl\<close> gives the bytes \<open>curl -L --fail -o $tmpdir/deb\<close>
  writes for a URL (\<open>None\<close>: it writes nothing and the file stays as it was), and
  \<open>env_sha256\<close> is the digest \<open>sha256sum\<close> prints. The script's state is the content of
  \<open>$tmpdir/deb\<close> (\<open>None\<close>: no such file) and the URLs given to curl so far.
\<close>

record dl_env =
  env_sha256 :: "string \<Rightarrow> string"
  env_curl :: "string \<Rightarrow> string option"
  env_pwd :: string
  env_builddir :: string

record deb_vars =
  var_sha256sum :: string
  var_filename :: string
  var_aptly_pool_filename :: string

record dl_state =
  deb :: "string option"
  attempted :: "string list"

text \<open>
  The script substitutes its variables without quotes (\<open>download $mirror/${filename}\<close>,
  \<open>curl ... -o $tmpdir/deb $1\<close>), so the shell reads the substituted text again: white
  space splits it into several words, and quotes, \<open>;\<close>, \<open>*\<close> and the like have their
  shell meaning. The model covers the scripts in which every substituted text is
  one plain word: letters, digits and \<open>/ . _ - : + ~ %\<close> only, no leading \<open>-\<close> (which
  a command takes for an option), and no \<open>~\<close> at the start or after a \<open>:\<close> (which an
  assignment expands). For any other text the functions below give \<open>None\<close>: the
  script that runs is then another one, which is not modelled.
\<close>

definition plain_char :: "char \<Rightarrow> bool" where
  "plain_char c \<longleftrightarrow>
     (CHR ''a'' \<le> c \<and> c \<le> CHR ''z'') \<or> (CHR ''A'' \<le> c \<and> c \<le> CHR ''Z'') \<or>
     (CHR ''0'' \<le> c \<and> c \<le> CHR ''9'') \<or> c \<in> set ''/._-:+~%''"

fun tilde_ok :: "bool \<Rightarrow> string \<Rightarrow> bool" where
  "tilde_ok at_start [] = True"
| "tilde_ok at_start (c # cs) = (\<not> (c = CHR ''~'' \<and> at_start) \<and> tilde_ok (c = CHR '':'') cs)"

definition plain_word :: "string \<Rightarrow> bool" where
  "plain_word s \<longleftrightarrow> list_all plain_char s \<and> \<not> startswith s ''-'' \<and> tilde_ok True s"

text \<open>\<open>tmpdir=$builddir/tmp/download-deb/$aptly_pool_filename\<close>\<close>

definition tmpdir :: "dl_env \<Rightarrow> deb_vars \<Rightarrow> string" where
  "tmpdir env v = env_builddir env @ ''/tmp/download-deb/'' @ var_aptly_pool_filename v"

definition script_plain :: "dl_env \<Rightarrow> deb_vars \<Rightarrow> bool" where
  "script_plain env v \<longleftrightarrow>
     list_all plain_char (var_sha256sum v) \<and> list_all plain_char (var_filename v) \<and>
     list_all plain_char (env_pwd env) \<and> plain_word (tmpdir env v)"

text \<open>
  The shell function \<open>download\<close> for a plain URL: its exit status (\<open>True\<close> for 0) and
  the state it leaves. It runs as the left operand of \<open>&&\<close>, where \<open>set -e\<close> does not
  apply, so a failing curl does not stop it; \<open>sha256sum\<close> of a missing file prints
  nothing.
\<close>

definition download_run :: "dl_env \<Rightarrow> deb_vars \<Rightarrow> string \<Rightarrow> dl_state \<Rightarrow> bool \<times> dl_state" where
  "download_run env v url st =
     (let deb' = (case env_curl env url of Some b \<Rightarrow> Some b | None \<Rightarrow> deb st);
          actual_sha256 = (case deb' of None \<Rightarrow> [] | Some b \<Rightarrow> env_sha256 env b)
      in (actual_sha256 = var_sha256sum v, \<lparr>deb = deb', attempted = attempted st @ [url]\<rparr>))"

text \<open>
  \<open>download text\<close> as the script calls it: \<open>text\<close> is what stands after the command
  name once the variables are substituted.
\<close>

definition download ::
  "dl_env \<Rightarrow> deb_vars \<Rightarrow> string \<Rightarrow> dl_state \<Rightarrow> (bool \<times> dl_state) option" where
  "download env v url st =
     (if script_plain env v \<and> plain_word url then Some (download_run env v url st) else None)"

definition mirror_cache_url :: "dl_env \<Rightarrow> deb_vars \<Rightarrow> string" where
  "mirror_cache_url env v =
     ''file://'' @ env_pwd env @ ''/'' @ env_builddir env @ ''/apt/mirror/'' @ var_filename v"

text \<open>
  \<open>while read mirror; do ... && break; ... done\<close> over the lines of the mirror list.
\<close>

fun download_loop :: "dl_env \<Rightarrow> deb_vars \<Rightarrow> string list \<Rightarrow> dl_state \<Rightarrow> dl_state option" where
  "download_loop env v [] st = Some st"
| "download_loop env v (mirror # mirrors) st =
     (case download env v (mirror_cache_url env v) st of
        None \<Rightarrow> None
      | Some (True, st1) \<Rightarrow> Some st1
      | Some (False, st1) \<Rightarrow>
          (case download env v (mirror @ ''/'' @ var_filename v) st1 of
             None \<Rightarrow> None
           | Some (True, st2) \<Rightarrow> Some st2
           | Some (False, st2) \<Rightarrow>
               (case download env v (mirror @ ''/'' @ var_aptly_pool_filename v) st2 of
                  None \<Rightarrow> None
                | Some (True, st3) \<Rightarrow> Some st3
                | Some (False, st3) \<Rightarrow> download_loop env v mirrors st3)))"

text \<open>
  The script up to \<open>if ! [ -e $tmpdir/deb ]; then ... exit 1\<close>, when it is covered:
  the content of \<open>$tmpdir/deb\<close> after the loop (\<open>None\<close>: there is no such file and the
  script exits with status 1; else the bytes that the rest of the script unpacks
  and commits), with the URLs given to curl, in order. \<open>deb0\<close> is what \<open>$tmpdir/deb\<close>
  holds when the script starts (\<open>mkdir -p\<close> does not empty the directory): \<open>None\<close>
  unless an earlier run was interrupted.
\<close>

definition download_deb ::
  "dl_env \<Rightarrow> deb_vars \<Rightarrow> string list \<Rightarrow> string option \<Rightarrow> (string option \<times> string list) option" where
  "download_deb env v mirrors deb0 =
     (if \<not> script_plain env v then None
      else (case download_loop env v mirrors \<lparr>deb = deb0, attempted = []\<rparr> of
              None \<Rightarrow> None
            | Some st \<Rightarrow> Some (deb st, attempted st)))"

text \<open>The sources in the order of the loop: three per mirror.\<close>

definition sources :: "dl_env \<Rightarrow> deb_vars \<Rightarrow> string list \<Rightarrow> string list" where
  "sources env v mirrors =
     concat (map (\<lambda>mirror. [mirror_cache_url env v, mirror @ ''/'' @ var_filename v,
                             mirror @ ''/'' @ var_aptly_pool_filename v]) mirrors)"

text \<open>
  The order the specification gives: the local cache keyed by pool path, each mirror
  in turn, then the pool path on the last mirror.
\<close>

definition spec_sources :: "dl_env \<Rightarrow> deb_vars \<Rightarrow> string list \<Rightarrow> string list" where
  "spec_sources env v mirrors =
     [''file://'' @ env_pwd env @ ''/'' @ env_builddir env @ ''/apt/mirror/'' @
        var_aptly_pool_filename v] @
     map (\<lambda>mirror. mirror @ ''/'' @ var_filename v) mirrors @
     (if mirrors = [] then [] else [last mirrors @ ''/'' @ var_aptly_pool_filename v])"

text \<open>Trying a list of plain URLs in order until \<open>download\<close> succeeds.\<close>

fun try_urls :: "dl_env \<Rightarrow> deb_vars \<Rightarrow> string list \<Rightarrow> dl_state \<Rightarrow> dl_state" where
  "try_urls env v [] st = st"
| "try_urls env v (url # urls) st =
     (case download_run env v url st of
        (True, st1) \<Rightarrow> st1
      | (False, st1) \<Rightarrow> try_urls env v urls st1)"

text \<open>
  The content of \<open>$tmpdir/deb\<close> does not pass the check of \<open>download\<close>: there is
  no file, or its digest is not the expected one.
\<close>

definition unverified :: "dl_env \<Rightarrow> deb_vars \<Rightarrow> string option \<Rightarrow> bool" where
  "unverified env v d \<longleftrightarrow> (case d of None \<Rightarrow> True | Some b \<Rightarrow> env_sha256 env b \<noteq> var_sha256sum v)"

section \<open>Overwrite-if-changed in make_dpkg_info and update_lockfile\<close>










section \<open>The build graph written by class Apt\<close>

text \<open>
  A target of the graph: \<open>RepoRef r\<close> is the ref file
  \<open>$ostree_repo/refs/heads/r\<close>, \<open>BuildFile p\<close> is \<open>$builddir/p\<close>, \<open>Path p\<close> any
  other name. A \<open>build_call\<close> is one call of \<open>Rule.build\<close> or \<open>ninja.build\<close> with
  the arguments of the call site (\<open>outputs\<close> is empty where the rule declares them).
\<close>

datatype target = RepoRef string | BuildFile string | Path string

record build_call =
  outputs :: "target list"
  rule :: string
  inputs :: "target list"
  implicit :: "target list"
  variables :: "(string \<times> string) list"

text \<open>
  The state of an \<open>Apt\<close> object: the calls made on \<open>self.ninja\<close> so far, the files
  written through \<open>self.ninja.open(..., 'w')\<close>, and its two attributes.
\<close>

record apt =
  builds :: "build_call list"
  files :: "(string \<times> string) list"
  deb_pool_mirrors :: "string list"
  update_lockfile_rules :: "target set"

text \<open>
  Modelled from the spec: \<open>Rule.build\<close> (class \<open>Rule\<close> of ninja.py, which is not
  among the sources) registers a task and returns the task's declared outputs; the
  outputs are those of each \<open>Rule(...)\<close> in apt.py with the variables of the call
  filled in.
\<close>

definition rule_build ::
  "string \<Rightarrow> target list \<Rightarrow> target list \<Rightarrow> (string \<times> string) list \<Rightarrow> apt \<Rightarrow> apt" where
  "rule_build r ins imp vs a =
     a\<lparr>builds := builds a @
          [\<lparr>outputs = [], rule = r, inputs = ins, implicit = imp, variables = vs\<rparr>]\<rparr>"

definition ninja_build :: "target list \<Rightarrow> string \<Rightarrow> target list \<Rightarrow> apt \<Rightarrow> apt" where
  "ninja_build outs r ins a =
     a\<lparr>builds := builds a @
          [\<lparr>outputs = outs, rule = r, inputs = ins, implicit = [], variables = []\<rparr>]\<rparr>"

definition update_lockfile_build ::
  "string \<Rightarrow> string \<Rightarrow> string \<Rightarrow> string \<Rightarrow> string \<Rightarrow> apt \<Rightarrow> target list \<times> apt" where
  "update_lockfile_build packages architecture archive_url distribution lockfile a =
     ([Path (''update-lockfile-'' @ lockfile)],
      rule_build ''update_lockfile'' [] []
        [(''packages'', packages), (''architecture'', architecture),
         (''archive_url'', archive_url), (''distribution'', distribution),
         (''lockfile'', lockfile)] a)"

definition dpkg_base_build :: "string \<Rightarrow> apt \<Rightarrow> target list \<times> apt" where
  "dpkg_base_build architecture a =
     ([RepoRef (''deb/dpkg-base/'' @ architecture)],
      rule_build ''dpkg_base'' [] [] [(''architecture'', architecture)] a)"

definition download_deb_build ::
  "string \<Rightarrow> string \<Rightarrow> string \<Rightarrow> string \<Rightarrow> apt \<Rightarrow> target list \<times> apt" where
  "download_deb_build sha256sum filename aptly_pool_filename ref_base a =
     ([RepoRef (ref_base @ ''/data''), RepoRef (ref_base @ ''/control'')],
      rule_build ''download_deb'' [] []
        [(''sha256sum'', sha256sum), (''filename'', filename),
         (''aptly_pool_filename'', aptly_pool_filename), (''ref_base'', ref_base)] a)"

definition make_dpkg_info_build ::
  "string \<Rightarrow> string \<Rightarrow> string \<Rightarrow> apt \<Rightarrow> target list \<times> apt" where
  "make_dpkg_info_build sha256sum pkgname ref_base a =
     ([BuildFile (ref_base @ ''/status''), BuildFile (ref_base @ ''/available''),
       RepoRef (ref_base @ ''/info'')],
      rule_build ''make_dpkg_info'' [] []
        [(''sha256sum'', sha256sum), (''pkgname'', pkgname), (''ref_base'', ref_base)] a)"

definition deb_combine_meta_build ::
  "target list \<Rightarrow> string \<Rightarrow> string \<Rightarrow> apt \<Rightarrow> target list \<times> apt" where
  "deb_combine_meta_build ins pkgs_digest meta a =
     ([RepoRef (''deb/images/'' @ pkgs_digest @ ''/'' @ meta)],
      rule_build ''deb_combine_meta'' ins []
        [(''pkgs_digest'', pkgs_digest), (''meta'', meta)] a)"

definition dpkg_configure_build :: "string \<Rightarrow> string \<Rightarrow> apt \<Rightarrow> target list \<times> apt" where
  "dpkg_configure_build in_branch out_branch a =
     ([RepoRef out_branch],
      rule_build ''dpkg_configure'' [] []
        [(''in_branch'', in_branch), (''out_branch'', out_branch)] a)"

text \<open>
  Modelled from the spec: the rule \<open>ostree_combine\<close> and the class \<open>OstreeRef\<close> are
  defined in ostree.py, which is not among the sources. The combined tree is
  published as the ref named by \<open>branch\<close> (the docstring of \<open>build_image_unpacked\<close>
  names the ref file the same way), and \<open>OstreeRef(f).ref\<close> is the ref name of the
  ref file \<open>f\<close>.
\<close>

definition ostree_combine_build ::
  "target list \<Rightarrow> target list \<Rightarrow> string \<Rightarrow> apt \<Rightarrow> target list \<times> apt" where
  "ostree_combine_build ins imp branch a =
     ([RepoRef branch], rule_build ''ostree_combine'' ins imp [(''branch'', branch)] a)"

datatype ostree_ref = OstreeRef target

fun ref :: "ostree_ref \<Rightarrow> string" where
  "ref (OstreeRef (RepoRef r)) = r"
| "ref (OstreeRef (BuildFile p)) = p"
| "ref (OstreeRef (Path p)) = p"

text \<open>
  \<open>s.replace(old, new)\<close> for a non-empty \<open>old\<close>: the occurrences are replaced from
  left to right, without overlap.
\<close>

function str_replace :: "string \<Rightarrow> string \<Rightarrow> string \<Rightarrow> string" where
  "str_replace old new [] = []"
| "str_replace old new (c # cs) =
     (if old \<noteq> [] \<and> startswith (c # cs) old
      then new @ str_replace old new (drop (length old) (c # cs))
      else c # str_replace old new cs)"
  by pat_completeness auto
termination
  by (relation "measure (\<lambda>(old, new, s). length s)") (auto simp: startswith_def)

subsection \<open>generate_lockfile\<close>

definition generate_lockfile ::
  "apt \<Rightarrow> string \<Rightarrow> string list option \<Rightarrow> string option \<Rightarrow> string option \<Rightarrow> string option \<Rightarrow>
   string \<times> apt" where
  "generate_lockfile self lockfile packages architecture distribution archive_url =
     (let packages = (case packages of None \<Rightarrow> [] | Some ps \<Rightarrow> ps);
          architecture = (case architecture of None \<Rightarrow> ''amd64'' | Some x \<Rightarrow> x);
          distribution = (case distribution of None \<Rightarrow> ''xenial'' | Some x \<Rightarrow> x);
          archive_url =
            (case archive_url of None \<Rightarrow> ''http://archive.ubuntu.com/ubuntu'' | Some x \<Rightarrow> x);
          packages = sort packages
      in case update_lockfile_build (concat (map (\<lambda>x. ''| '' @ x) packages))
                architecture archive_url distribution lockfile self of
           (out, self') \<Rightarrow>
             (lockfile,
              self'\<lparr>update_lockfile_rules := update_lockfile_rules self' \<union> set out\<rparr>))"

subsection \<open>image_from_lockfile\<close>

record pkg_lists =
  all_data :: "target list"
  all_info :: "target list"
  all_status :: "target list"
  all_available :: "target list"

text \<open>
  The body of \<open>for pkg in parse_packages(f)\<close>. The two unpacking assignments raise
  \<open>ValueError\<close> on a list of another length.
\<close>

definition add_package :: "pkg \<Rightarrow> apt \<times> pkg_lists \<Rightarrow> py_error + (apt \<times> pkg_lists)" where
  "add_package pkg st =
     (let self = fst st; l = snd st in
      case package_names pkg of
        Inl e \<Rightarrow> Inl e
      | Inr (filename, sha, pool, rb) \<Rightarrow>
          (case download_deb_build sha filename pool rb self of
             ([data, control], self1) \<Rightarrow>
               (case dict_get pkg ''Package'' of
                  Inl e \<Rightarrow> Inl e
                | Inr pkgname \<Rightarrow>
                    (case make_dpkg_info_build sha pkgname rb self1 of
                       ([status, available, info], self2) \<Rightarrow>
                         Inr (self2,
                              \<lparr>all_data = all_data l @ [data],
                               all_info = all_info l @ [info],
                               all_status = all_status l @ [status],
                               all_available = all_available l @ [available]\<rparr>)
                     | _ \<Rightarrow> Inl ValueError))
           | _ \<Rightarrow> Inl ValueError))"

fun add_packages :: "pkg list \<Rightarrow> apt \<times> pkg_lists \<Rightarrow> py_error + (apt \<times> pkg_lists)" where
  "add_packages [] st = Inr st"
| "add_packages (pkg # pkgs) st =
     (case add_package pkg st of Inl e \<Rightarrow> Inl e | Inr st' \<Rightarrow> add_packages pkgs st')"

text \<open>
  The \<open>try\<close> statement. \<open>opened\<close> is what \<open>self.ninja.open(lockfile)\<close> does: it
  raises, or gives the file, whose text is read line by line. The generator is
  consumed as it yields, so the loop body has run for every package yielded before
  an exception of the parser surfaces. Neither the parser nor the body raises
  \<open>IOError\<close>, so the handler sees only what \<open>open\<close> raised.
\<close>

definition read_lockfile :: "apt \<Rightarrow> py_error + string \<Rightarrow> py_error + (apt \<times> pkg_lists)" where
  "read_lockfile self opened =
     (let st0 = (self, \<lparr>all_data = [], all_info = [], all_status = [], all_available = []\<rparr>) in
      case opened of
        Inl (IOError errno) \<Rightarrow> if errno \<noteq> ENOENT then Inl (IOError errno) else Inr st0
      | Inl e \<Rightarrow> Inl e
      | Inr contents \<Rightarrow>
          (case parse_packages (readlines contents) of
             (pkgs, raised) \<Rightarrow>
               (case add_packages pkgs st0 of
                  Inl e \<Rightarrow> Inl e
                | Inr st \<Rightarrow> (case raised of Some e \<Rightarrow> Inl e | None \<Rightarrow> Inr st))))"

definition image_from_lockfile ::
  "apt \<Rightarrow> py_error + string \<Rightarrow> string \<Rightarrow> string option \<Rightarrow> py_error + (ostree_ref \<times> apt)" where
  "image_from_lockfile self opened lockfile architecture =
     (let architecture = (case architecture of None \<Rightarrow> ''amd64'' | Some x \<Rightarrow> x) in
      case dpkg_base_build architecture self of (base, self1) \<Rightarrow>
     (let self2 = self1\<lparr>files := files self1 @
            [(''_build/deb_pool_mirrors'',
              concat (map (\<lambda>x. x @ [CHR 0x0A]) (deb_pool_mirrors self1)))]\<rparr> in
      case read_lockfile self2 opened of
        Inl e \<Rightarrow> Inl e
      | Inr (self3, l) \<Rightarrow>
     (let digest = replace_char CHR ''/'' CHR ''_'' lockfile in
      case ostree_combine_build (all_data l) []
             (''deb/images/'' @ digest @ ''/data_combined'') self3 of (rootfs, self4) \<Rightarrow>
      case ostree_combine_build (all_info l) []
             (''deb/images/'' @ digest @ ''/info_combined'') self4 of (dpkg_infos, self5) \<Rightarrow>
      case deb_combine_meta_build (all_status l) digest ''status'' self5 of
        (dpkg_status, self6) \<Rightarrow>
      case deb_combine_meta_build (all_available l) digest ''available'' self6 of
        (dpkg_available, self7) \<Rightarrow>
      case ostree_combine_build (base @ dpkg_infos @ dpkg_status @ dpkg_available @ rootfs)
             [Path lockfile] (''deb/images/'' @ digest @ ''/unpacked'') self7 of
        ([image_out], self8) \<Rightarrow>
          Inr (OstreeRef image_out,
               ninja_build [Path (''unpacked-image-for-'' @ lockfile)] ''phony'' [image_out] self8)
      | _ \<Rightarrow> Inl ValueError)))"

subsection \<open>build_image\<close>

definition build_image_unpacked ::
  "apt \<Rightarrow> py_error + string \<Rightarrow> string \<Rightarrow> string list option \<Rightarrow> string option \<Rightarrow>
   string option \<Rightarrow> string option \<Rightarrow> py_error + (ostree_ref \<times> apt)" where
  "build_image_unpacked self opened lockfile packages architecture distribution archive_url =
     (case generate_lockfile self lockfile packages architecture distribution archive_url of
        (lf, self1) \<Rightarrow> image_from_lockfile self1 opened lockfile architecture)"

definition build_image ::
  "apt \<Rightarrow> py_error + string \<Rightarrow> string \<Rightarrow> string list option \<Rightarrow> string option \<Rightarrow>
   string option \<Rightarrow> string option \<Rightarrow> py_error + (ostree_ref \<times> apt)" where
  "build_image self opened lockfile packages architecture distribution archive_url =
     (case build_image_unpacked self opened lockfile packages architecture distribution
             archive_url of
        Inl e \<Rightarrow> Inl e
      | Inr (unpacked, self1) \<Rightarrow>
          (case dpkg_configure_build (ref unpacked)
                  (str_replace ''unpacked'' ''configured'' (ref unpacked)) self1 of
             (c_ref, self2) \<Rightarrow>
               Inr (OstreeRef (hd c_ref),
                    ninja_build [Path (''image-for-'' @ lockfile)] ''phony'' c_ref self2)))"

section \<open>Combining trees\<close>

text \<open>
  Modelled from the spec: the combine step (rule \<open>ostree_combine\<close> of ostree.py,
  which is not among the sources). A tree maps paths to file contents. The inputs
  are merged into their union; a path that two inputs provide is an irrecoverable
  conflict (\<open>MergeConflictError\<close>), never resolved in favour of the later input.
\<close>

type_synonym tree = "(string, string) fmap"

datatype merge_error = MergeConflictError

fun combine :: "tree list \<Rightarrow> merge_error + tree" where
  "combine [] = Inr fmempty"
| "combine (t # ts) =
     (case combine ts of
        Inl e \<Rightarrow> Inl e
      | Inr rest \<Rightarrow>
          if fmdom t |\<inter>| fmdom rest = {||} then Inr (t ++\<^sub>f rest) else Inl MergeConflictError)"

text \<open>
  For reasoning about \<open>combine\<close>: the inputs that provide a path, the union of the
  inputs, and the inputs being pairwise disjoint (every input against all later
  ones).
\<close>

definition providers :: "string \<Rightarrow> tree list \<Rightarrow> tree list" where
  "providers p ts = filter (\<lambda>t. p |\<in>| fmdom t) ts"

definition union_trees :: "tree list \<Rightarrow> tree" where
  "union_trees ts = foldr (++\<^sub>f) ts fmempty"

fun disjoint_trees :: "tree list \<Rightarrow> bool" where
  "disjoint_trees [] = True"
| "disjoint_trees (t # ts) = ((\<forall>u \<in> set ts. fmdom t |\<inter>| fmdom u = {||}) \<and> disjoint_trees ts)"

section \<open>Properties of parse_packages\<close>

lemma split_once_None_iff:
  assumes "sep \<noteq> []"
  shows "split_once sep s = None \<longleftrightarrow> (\<nexists>a b. s = a @ sep @ b)"
proof (induction s)
  case Nil
  then show ?case using assms by simp
next
  case (Cons c cs)
  show ?case
  proof (cases "startswith (c # cs) sep")
    case True
    then have "c # cs = [] @ sep @ drop (length sep) (c # cs)"
      unfolding startswith_def by (metis append_Nil append_take_drop_id)
    then have "\<exists>a b. c # cs = a @ sep @ b" by blast
    with True show ?thesis by simp
  next
    case False
    have "(\<exists>a b. c # cs = a @ sep @ b) \<longleftrightarrow> (\<exists>a b. cs = a @ sep @ b)"
    proof
      assume "\<exists>a b. c # cs = a @ sep @ b"
      then obtain a b where ab: "c # cs = a @ sep @ b" by blast
      show "\<exists>a b. cs = a @ sep @ b"
      proof (cases a)
        case Nil
        with ab have "startswith (c # cs) sep" by (simp add: startswith_def)
        with False show ?thesis by simp
      next
        case (Cons x a')
        with ab have "cs = a' @ sep @ b" by simp
        then show ?thesis by blast
      qed
    next
      assume "\<exists>a b. cs = a @ sep @ b"
      then obtain a b where "cs = a @ sep @ b" by blast
      then have "c # cs = (c # a) @ sep @ b" by simp
      then show "\<exists>a b. c # cs = a @ sep @ b" by blast
    qed
    with False Cons.IH show ?thesis by simp
  qed
qed

lemma parse_loop_error_iff: "snd (parse_loop st xs) = None \<longleftrightarrow> parse_state st xs \<noteq> None"
proof (induction xs arbitrary: st)
  case Nil
  show ?case by simp
next
  case (Cons l ls)
  show ?case
  proof (cases "parse_line st l")
    case (Inl e)
    then show ?thesis by simp
  next
    case (Inr r)
    obtain y st' where "r = (y, st')" by (cases r)
    with Inr Cons.IH[of st'] show ?thesis by (auto split: prod.splits)
  qed
qed

lemma parse_loop_append:
  "parse_state st xs = Some st' \<Longrightarrow>
   parse_loop st (xs @ ys) = (fst (parse_loop st xs) @ fst (parse_loop st' ys), snd (parse_loop st' ys))"
  by (induction xs arbitrary: st) (auto split: sum.splits prod.splits option.splits)

lemma parse_state_snoc:
  "parse_state st (xs @ [l]) = Some st' \<Longrightarrow>
   \<exists>st1 y. parse_state st xs = Some st1 \<and> parse_line st1 l = Inr (y, st')"
  by (induction xs arbitrary: st) (auto split: sum.splits prod.splits)

lemma parse_line_blank: "blank l \<Longrightarrow> parse_line st l = Inr (y, st') \<Longrightarrow> st' = ([], None)"
  by (auto simp: parse_line_def blank_def Let_def)

lemma parse_state_paragraph_start:
  assumes "parse_state ([], None) pre = Some st" and "pre = [] \<or> blank (last pre)"
  shows "st = ([], None)"
proof (cases pre rule: rev_cases)
  case Nil
  with assms show ?thesis by simp
next
  case (snoc xs l)
  with assms obtain st1 y where "parse_line st1 l = Inr (y, st)" "blank l"
    using parse_state_snoc by fastforce
  then show ?thesis using parse_line_blank by blast
qed

lemma parse_line_bad_first:
  assumes "\<not> blank l" and "startswith l '' '' \<or> (\<nexists>a b. l = a @ '': '' @ b)"
  shows "parse_line ([], None) l = Inl (if startswith l '' '' then KeyError None else ValueError)"
proof (cases "startswith l '' ''")
  case True
  then show ?thesis using assms(1)
    by (simp add: parse_line_def blank_def dict_append_def)
next
  case False
  with assms(2) have "split_once '': '' l = None"
    by (simp add: split_once_None_iff)
  moreover have "l \<noteq> '' .''" using False by (auto simp: startswith_def)
  ultimately show ?thesis using assms(1) False
    by (simp add: parse_line_def blank_def)
qed

text \<open>
  Claim C10. Every paragraph has to open with a \<open>Label: value\<close> line. Let \<open>pre\<close>
  be lines that parse without an exception and end a paragraph (\<open>pre\<close> is empty or
  its last line is blank), and let \<open>l\<close> be a non-blank line that begins with a
  space or contains no \<open>": "\<close>. Then parsing \<open>pre\<close>, \<open>l\<close> and whatever follows
  raises an exception at \<open>l\<close>: \<open>KeyError\<close> for the leading space, else
  \<open>ValueError\<close>; the packages yielded are those of \<open>pre\<close> and no more.
\<close>

theorem parse_packages_requires_label_line:
  assumes "snd (parse_packages pre) = None"
    and "pre = [] \<or> blank (last pre)"
    and "\<not> blank l"
    and "startswith l '' '' \<or> (\<nexists>a b. l = a @ '': '' @ b)"
  shows "parse_packages (pre @ l # post) =
    (fst (parse_packages pre), Some (if startswith l '' '' then KeyError None else ValueError))"
proof -
  from assms(1) obtain st where st: "parse_state ([], None) pre = Some st"
    unfolding parse_packages_def parse_loop_error_iff by blast
  have "st = ([], None)" by (rule parse_state_paragraph_start[OF st assms(2)])
  with st have "parse_loop ([], None) (pre @ l # post) =
      (fst (parse_loop ([], None) pre) @ fst (parse_loop ([], None) (l # post)),
       snd (parse_loop ([], None) (l # post)))"
    by (simp add: parse_loop_append)
  moreover have "parse_loop ([], None) (l # post) =
      ([], Some (if startswith l '' '' then KeyError None else ValueError))"
    using parse_line_bad_first[OF assms(3,4)] by simp
  ultimately show ?thesis by (simp add: parse_packages_def)
qed

theorem parse_packages_requires_label_line_witness:
  "parse_packages [''Package: a\<newline>'', ''\<newline>'', '' Depends: b\<newline>'', ''Package: c\<newline>'', ''\<newline>''] =
     ([[(''Package'', ''a'')]], Some (KeyError None)) \<and>
   parse_packages [''Package: a\<newline>'', ''\<newline>'', ''Depends\<newline>'', ''Package: c\<newline>'', ''\<newline>''] =
     ([[(''Package'', ''a'')]], Some ValueError)"
proof -
  have p: "parse_packages [''Package: a\<newline>'', ''\<newline>''] = ([[(''Package'', ''a'')]], None)"
    by (simp add: parse_packages_def parse_line_def strip_def is_space_def startswith_def)
  have b: "blank (last [''Package: a\<newline>'', ''\<newline>''])"
    by (simp add: blank_def strip_def is_space_def)
  have n1: "\<not> blank '' Depends: b\<newline>''" by (simp add: blank_def strip_def is_space_def)
  have n2: "\<not> blank ''Depends\<newline>''" by (simp add: blank_def strip_def is_space_def)
  have s1: "startswith '' Depends: b\<newline>'' '' ''" by (simp add: startswith_def)
  have s2: "\<nexists>a b. ''Depends\<newline>'' = a @ '': '' @ b"
    using split_once_None_iff[of "'': ''" "''Depends\<newline>''"] by (simp add: startswith_def)
  have s2': "\<not> startswith ''Depends\<newline>'' '' ''" by (simp add: startswith_def)
  show ?thesis
    using parse_packages_requires_label_line[of "[''Package: a\<newline>'', ''\<newline>'']" "'' Depends: b\<newline>''"
        "[''Package: c\<newline>'', ''\<newline>'']"]
      parse_packages_requires_label_line[of "[''Package: a\<newline>'', ''\<newline>'']" "''Depends\<newline>''"
        "[''Package: c\<newline>'', ''\<newline>'']"]
      p b n1 n2 s1 s2 s2'
    by simp
qed


text \<open>
  Claim C7, evaluated. A stream whose last paragraph is not followed by a blank line:
  the loop ends without the final \<open>yield\<close>, and the paragraph, though not empty,
  is lost. With the blank line the same record is yielded.
\<close>

theorem parse_packages_trailing_paragraph_dropped:
  "parse_packages (readlines ''Package: a\<newline>SHA256: 00\<newline>'') = ([], None) \<and>
   parse_packages (readlines ''Package: a\<newline>SHA256: 00\<newline>\<newline>'') =
     ([[(''Package'', ''a''), (''SHA256'', ''00'')]], None)"
  by (simp add: parse_packages_def parse_line_def strip_def is_space_def startswith_def)

text \<open>
  Claim C4, evaluated. The lines of a file keep their newline, so the marker line is
  a space, a dot and the newline, which the test \<open>line == ' .'\<close> does not accept:
  it is read as an ordinary continuation line, and the value holds a line \<open>"."\<close>
  where the blank line should be. Only a marker that is the last line of a file
  without a final newline takes the marker branch.
\<close>

theorem parse_packages_blank_line_marker_kept:
  "parse_packages (readlines ''Package: a\<newline>Description: x\<newline> .\<newline> y\<newline>\<newline>'') =
     ([[(''Package'', ''a''), (''Description'', ''x\<newline>.\<newline>y'')]], None)"
  by (simp add: parse_packages_def parse_line_def strip_def is_space_def startswith_def
      dict_append_def)

section \<open>Properties of the pool path\<close>

lemma unquote_no_percent: "CHR ''%'' \<notin> set s \<Longrightarrow> unquote s = s"
  by (induction s rule: unquote.induct) auto

lemma replace_plus_tilde:
  "replace_char CHR ''~'' CHR ''_'' (replace_char CHR ''+'' CHR ''_'' s) = spec_namespace s"
  by (induction s) (auto simp: replace_char_def spec_namespace_def)

text \<open>
  Claim C2, as the code has it. For a package with digest \<open>D\<close> and Filename \<open>F\<close>, the
  pool path is \<open>D[0:2]/D[2:4]/D[4:]_f\<close> where \<open>f\<close> is the basename of the
  URL-unquoted \<open>F\<close> (of \<open>F\<close> itself when it holds no \<open>%\<close>); the store namespace
  \<open>ref_base\<close> is \<open>deb/pool/\<close> followed by the pool path with every \<open>+\<close> and
  every \<open>~\<close> replaced by \<open>_\<close>; and download_deb is given the pool path with its
  original characters next to \<open>ref_base\<close>.
\<close>

theorem package_names_pool_path:
  assumes "map_of pkg ''SHA256'' = Some D" and "map_of pkg ''Filename'' = Some F"
  shows "package_names pkg =
      Inr (unquote F, D, spec_pool_path D (unquote F),
           ''deb/pool/'' @ spec_namespace (spec_pool_path D (unquote F))) \<and>
    (CHR ''%'' \<notin> set F \<longrightarrow> spec_pool_path D (unquote F) = spec_pool_path D F) \<and>
    (\<forall>self l N. map_of pkg ''Package'' = Some N \<longrightarrow>
       (\<exists>self' l'. add_package pkg (self, l) = Inr (self', l') \<and>
          builds self' = builds self @
            [\<lparr>outputs = [], rule = ''download_deb'', inputs = [], implicit = [],
              variables = [(''sha256sum'', D), (''filename'', unquote F),
                (''aptly_pool_filename'', spec_pool_path D (unquote F)),
                (''ref_base'', ''deb/pool/'' @ spec_namespace (spec_pool_path D (unquote F)))]\<rparr>,
             \<lparr>outputs = [], rule = ''make_dpkg_info'', inputs = [], implicit = [],
              variables = [(''sha256sum'', D), (''pkgname'', N),
                (''ref_base'', ''deb/pool/'' @ spec_namespace (spec_pool_path D (unquote F)))]\<rparr>]))"
proof -
  have n: "package_names pkg =
      Inr (unquote F, D, spec_pool_path D (unquote F),
           ''deb/pool/'' @ spec_namespace (spec_pool_path D (unquote F)))"
    using assms
    by (simp add: package_names_def dict_get_def aptly_pool_filename_of_def ref_base_of_def
        spec_pool_path_def replace_plus_tilde Let_def)
  have u: "CHR ''%'' \<notin> set F \<longrightarrow> spec_pool_path D (unquote F) = spec_pool_path D F"
    by (simp add: unquote_no_percent)
  have a: "\<forall>self l N. map_of pkg ''Package'' = Some N \<longrightarrow>
       (\<exists>self' l'. add_package pkg (self, l) = Inr (self', l') \<and>
          builds self' = builds self @
            [\<lparr>outputs = [], rule = ''download_deb'', inputs = [], implicit = [],
              variables = [(''sha256sum'', D), (''filename'', unquote F),
                (''aptly_pool_filename'', spec_pool_path D (unquote F)),
                (''ref_base'', ''deb/pool/'' @ spec_namespace (spec_pool_path D (unquote F)))]\<rparr>,
             \<lparr>outputs = [], rule = ''make_dpkg_info'', inputs = [], implicit = [],
              variables = [(''sha256sum'', D), (''pkgname'', N),
                (''ref_base'', ''deb/pool/'' @ spec_namespace (spec_pool_path D (unquote F)))]\<rparr>])"
    by (simp add: add_package_def n dict_get_def download_deb_build_def make_dpkg_info_build_def
        rule_build_def)
  from n u a show ?thesis by blast
qed

theorem package_names_pool_path_witness:
  "package_names [(''Package'', ''gcc''), (''SHA256'', ''abcdef0123''),
       (''Filename'', ''pool/main/g/gcc_5.4~1+b2.deb'')] =
     Inr (''pool/main/g/gcc_5.4~1+b2.deb'', ''abcdef0123'', ''ab/cd/ef0123_gcc_5.4~1+b2.deb'',
          ''deb/pool/ab/cd/ef0123_gcc_5.4_1_b2.deb'') \<and>
   map_sum id (builds \<circ> fst)
     (add_package [(''Package'', ''gcc''), (''SHA256'', ''abcdef0123''),
         (''Filename'', ''pool/main/g/gcc_5.4~1+b2.deb'')]
       (\<lparr>builds = [], files = [], deb_pool_mirrors = [], update_lockfile_rules = {}\<rparr>,
        \<lparr>all_data = [], all_info = [], all_status = [], all_available = []\<rparr>)) =
     Inr [\<lparr>outputs = [], rule = ''download_deb'', inputs = [], implicit = [],
           variables = [(''sha256sum'', ''abcdef0123''),
             (''filename'', ''pool/main/g/gcc_5.4~1+b2.deb''),
             (''aptly_pool_filename'', ''ab/cd/ef0123_gcc_5.4~1+b2.deb''),
             (''ref_base'', ''deb/pool/ab/cd/ef0123_gcc_5.4_1_b2.deb'')]\<rparr>,
          \<lparr>outputs = [], rule = ''make_dpkg_info'', inputs = [], implicit = [],
           variables = [(''sha256sum'', ''abcdef0123''), (''pkgname'', ''gcc''),
             (''ref_base'', ''deb/pool/ab/cd/ef0123_gcc_5.4_1_b2.deb'')]\<rparr>]"
proof -
  let ?pkg = "[(''Package'', ''gcc''), (''SHA256'', ''abcdef0123''),
       (''Filename'', ''pool/main/g/gcc_5.4~1+b2.deb'')]"
  let ?self = "\<lparr>builds = [], files = [], deb_pool_mirrors = [], update_lockfile_rules = {}\<rparr>"
  let ?l = "\<lparr>all_data = [], all_info = [], all_status = [], all_available = []\<rparr>"
  have s: "spec_pool_path ''abcdef0123'' ''pool/main/g/gcc_5.4~1+b2.deb'' =
      ''ab/cd/ef0123_gcc_5.4~1+b2.deb''"
    by (simp add: spec_pool_path_def basename_def)
  have t: "spec_namespace ''ab/cd/ef0123_gcc_5.4~1+b2.deb'' = ''ab/cd/ef0123_gcc_5.4_1_b2.deb''"
    by (simp add: spec_namespace_def)
  have p: "map_of ?pkg ''SHA256'' = Some ''abcdef0123''" by simp
  have f: "map_of ?pkg ''Filename'' = Some ''pool/main/g/gcc_5.4~1+b2.deb''" by simp
  have n: "map_of ?pkg ''Package'' = Some ''gcc''" by simp
  note th = package_names_pool_path[OF p f]
  from th have 1: "package_names ?pkg =
     Inr (''pool/main/g/gcc_5.4~1+b2.deb'', ''abcdef0123'', ''ab/cd/ef0123_gcc_5.4~1+b2.deb'',
          ''deb/pool/ab/cd/ef0123_gcc_5.4_1_b2.deb'')"
    by (simp add: s t)
  from th[THEN conjunct2, THEN conjunct2, rule_format, OF n, of ?self ?l]
  obtain self' l' where "add_package ?pkg (?self, ?l) = Inr (self', l')"
    and "builds self' =
      [\<lparr>outputs = [], rule = ''download_deb'', inputs = [], implicit = [],
           variables = [(''sha256sum'', ''abcdef0123''),
             (''filename'', ''pool/main/g/gcc_5.4~1+b2.deb''),
             (''aptly_pool_filename'', ''ab/cd/ef0123_gcc_5.4~1+b2.deb''),
             (''ref_base'', ''deb/pool/ab/cd/ef0123_gcc_5.4_1_b2.deb'')]\<rparr>,
          \<lparr>outputs = [], rule = ''make_dpkg_info'', inputs = [], implicit = [],
           variables = [(''sha256sum'', ''abcdef0123''), (''pkgname'', ''gcc''),
             (''ref_base'', ''deb/pool/ab/cd/ef0123_gcc_5.4_1_b2.deb'')]\<rparr>]"
    by (auto simp: s t)
  with 1 show ?thesis by simp
qed

text \<open>
  Claim C2 as stated fails for a Filename with a percent escape: the basename that
  enters the pool path is that of the unquoted name, not of the record's Filename;
  and \<open>ref_base\<close> is not the replaced pool path itself, it carries the prefix
  \<open>deb/pool/\<close>.
\<close>

theorem pool_path_of_quoted_filename:
  "package_names [(''Package'', ''g++''), (''SHA256'', ''abcdef0123''),
       (''Filename'', ''pool/main/g/g%2B%2B_5.deb'')] =
     Inr (''pool/main/g/g++_5.deb'', ''abcdef0123'', ''ab/cd/ef0123_g++_5.deb'',
          ''deb/pool/ab/cd/ef0123_g___5.deb'') \<and>
   ''ab/cd/ef0123_g++_5.deb'' \<noteq> spec_pool_path ''abcdef0123'' ''pool/main/g/g%2B%2B_5.deb'' \<and>
   ''deb/pool/ab/cd/ef0123_g___5.deb'' \<noteq> spec_namespace ''ab/cd/ef0123_g++_5.deb''"
proof -
  have "char_of (43::nat) = CHR ''+''" by code_simp
  then show ?thesis
  by (simp add: package_names_def dict_get_def aptly_pool_filename_of_def ref_base_of_def
      spec_pool_path_def spec_namespace_def basename_def replace_char_def hexdig_def hexval_def)
qed

section \<open>Properties of download_deb\<close>

lemma download_loop_try_urls:
  assumes "script_plain env v"
  shows "list_all plain_word (sources env v mirrors) \<Longrightarrow>
         download_loop env v mirrors st = Some (try_urls env v (sources env v mirrors) st)"
proof (induction mirrors arbitrary: st)
  case Nil
  show ?case by (simp add: sources_def)
next
  case (Cons m ms)
  from Cons.prems have p: "plain_word (mirror_cache_url env v)"
    "plain_word (m @ ''/'' @ var_filename v)" "plain_word (m @ ''/'' @ var_aptly_pool_filename v)"
    and r: "list_all plain_word (sources env v ms)"
    by (simp_all add: sources_def)
  have s: "sources env v (m # ms) = mirror_cache_url env v # (m @ ''/'' @ var_filename v) #
      (m @ ''/'' @ var_aptly_pool_filename v) # sources env v ms"
    by (simp add: sources_def)
  show ?case
    unfolding s using assms p Cons.IH[OF r]
    by (simp add: download_def split: prod.splits bool.splits)
qed

lemma try_urls_attempted:
  "\<exists>k \<le> length urls. attempted (try_urls env v urls st) = attempted st @ take k urls"
proof (induction urls arbitrary: st)
  case Nil
  show ?case by simp
next
  case (Cons u us)
  obtain ok st1 where d: "download_run env v u st = (ok, st1)" by (cases "download_run env v u st")
  then have a: "attempted st1 = attempted st @ [u]"
    by (auto simp: download_run_def Let_def)
  show ?case
  proof (cases ok)
    case True
    with d a have "attempted (try_urls env v (u # us) st) = attempted st @ take 1 (u # us)"
      by simp
    then show ?thesis by (intro exI[of _ 1]) simp
  next
    case False
    from Cons.IH[of st1] obtain k where k: "k \<le> length us"
      "attempted (try_urls env v us st1) = attempted st1 @ take k us" by blast
    with d a False have "attempted (try_urls env v (u # us) st) = attempted st @ take (Suc k) (u # us)"
      by simp
    with k(1) show ?thesis by (intro exI[of _ "Suc k"]) simp
  qed
qed

lemma try_urls_first_match:
  assumes "var_sha256sum v \<noteq> []"
    and "unverified env v (deb st)"
    and "\<forall>u' \<in> set us. \<forall>b'. env_curl env u' = Some b' \<longrightarrow> env_sha256 env b' \<noteq> var_sha256sum v"
    and "env_curl env u = Some b" and "env_sha256 env b = var_sha256sum v"
  shows "try_urls env v (us @ u # rest) st = \<lparr>deb = Some b, attempted = attempted st @ us @ [u]\<rparr>"
  using assms(2,3)
proof (induction us arbitrary: st)
  case Nil
  show ?case using assms(4,5) by (simp add: download_run_def)
next
  case (Cons u' us)
  obtain st1 where d: "download_run env v u' st = (False, st1)" and a: "attempted st1 = attempted st @ [u']"
    and u: "unverified env v (deb st1)"
    using Cons.prems assms(1)
    by (cases "env_curl env u'"; cases "deb st") (auto simp: download_run_def unverified_def)
  from Cons.IH[OF u] Cons.prems(2) have
    "try_urls env v (us @ u # rest) st1 = \<lparr>deb = Some b, attempted = attempted st1 @ us @ [u]\<rparr>"
    by simp
  with d a show ?case by simp
qed

lemma try_urls_nothing:
  assumes "deb st = None" and "\<forall>u \<in> set urls. env_curl env u = None"
  shows "deb (try_urls env v urls st) = None"
  using assms
proof (induction urls arbitrary: st)
  case Nil
  then show ?case by simp
next
  case (Cons u us)
  obtain ok st1 where d: "download_run env v u st = (ok, st1)" by (cases "download_run env v u st")
  with Cons.prems have n: "deb st1 = None" by (auto simp: download_run_def Let_def)
  with Cons.IH[of st1] Cons.prems(2) have "deb (try_urls env v us st1) = None" by simp
  with d n show ?case by (cases ok) auto
qed

lemma try_urls_no_match:
  assumes "var_sha256sum v \<noteq> []"
  shows "unverified env v (deb st) \<Longrightarrow>
    \<forall>u \<in> set urls. \<forall>b. env_curl env u = Some b \<longrightarrow> env_sha256 env b \<noteq> var_sha256sum v \<Longrightarrow>
    attempted (try_urls env v urls st) = attempted st @ urls"
proof (induction urls arbitrary: st)
  case Nil
  show ?case by simp
next
  case (Cons u us)
  obtain st1 where d: "download_run env v u st = (False, st1)" and a: "attempted st1 = attempted st @ [u]"
    and n: "unverified env v (deb st1)"
    using Cons.prems assms
    by (cases "env_curl env u"; cases "deb st") (auto simp: download_run_def unverified_def)
  from Cons.IH[OF n] Cons.prems(2) have "attempted (try_urls env v us st1) = attempted st1 @ us"
    by simp
  with d a show ?case by simp
qed

text \<open>
  Claim C3, as the code has it, for the scripts the model covers: the substituted
  texts and the URLs are plain words. For every mirror of the list, in list order,
  the script tries three sources in turn: the local mirror cache keyed by the
  record's filename, the mirror's URL for that filename, and the mirror's URL for
  the pool path. The URLs given to curl are a prefix of that sequence. With a
  non-empty expected digest, and no stale file in the temporary directory that
  already matches it, the first source of the sequence whose bytes have the
  expected SHA-256 ends the loop: the script goes on with exactly these bytes and
  no later source is tried; and when no source has such bytes, every source of the
  sequence is tried. When no source yields any bytes and the temporary directory
  holds no file of an earlier run, the script fails.
\<close>

theorem download_deb_source_order:
  "script_plain env v \<and> list_all plain_word (sources env v mirrors) \<longrightarrow>
   (\<exists>k \<le> length (sources env v mirrors).
      map_option snd (download_deb env v mirrors deb0) = Some (take k (sources env v mirrors))) \<and>
   (\<forall>us u rest b.
      var_sha256sum v \<noteq> [] \<and> unverified env v deb0 \<and>
      sources env v mirrors = us @ u # rest \<and>
      (\<forall>u' \<in> set us. \<forall>b'. env_curl env u' = Some b' \<longrightarrow> env_sha256 env b' \<noteq> var_sha256sum v) \<and>
      env_curl env u = Some b \<and> env_sha256 env b = var_sha256sum v \<longrightarrow>
      download_deb env v mirrors deb0 = Some (Some b, us @ [u])) \<and>
   ((\<forall>u \<in> set (sources env v mirrors). env_curl env u = None) \<longrightarrow>
      map_option fst (download_deb env v mirrors None) = Some None) \<and>
   (var_sha256sum v \<noteq> [] \<and> unverified env v deb0 \<and>
    (\<forall>u \<in> set (sources env v mirrors). \<forall>b. env_curl env u = Some b \<longrightarrow>
       env_sha256 env b \<noteq> var_sha256sum v) \<longrightarrow>
      map_option snd (download_deb env v mirrors deb0) = Some (sources env v mirrors))"
proof
  assume "script_plain env v \<and> list_all plain_word (sources env v mirrors)"
  then have sp: "script_plain env v" and pw: "list_all plain_word (sources env v mirrors)"
    by simp_all
  have dd: "download_deb env v mirrors d =
      Some (deb (try_urls env v (sources env v mirrors) \<lparr>deb = d, attempted = []\<rparr>),
            attempted (try_urls env v (sources env v mirrors) \<lparr>deb = d, attempted = []\<rparr>))" for d
    using sp by (simp add: download_deb_def download_loop_try_urls[OF sp pw])
  show "(\<exists>k \<le> length (sources env v mirrors).
      map_option snd (download_deb env v mirrors deb0) = Some (take k (sources env v mirrors))) \<and>
   (\<forall>us u rest b.
      var_sha256sum v \<noteq> [] \<and> unverified env v deb0 \<and>
      sources env v mirrors = us @ u # rest \<and>
      (\<forall>u' \<in> set us. \<forall>b'. env_curl env u' = Some b' \<longrightarrow> env_sha256 env b' \<noteq> var_sha256sum v) \<and>
      env_curl env u = Some b \<and> env_sha256 env b = var_sha256sum v \<longrightarrow>
      download_deb env v mirrors deb0 = Some (Some b, us @ [u])) \<and>
   ((\<forall>u \<in> set (sources env v mirrors). env_curl env u = None) \<longrightarrow>
      map_option fst (download_deb env v mirrors None) = Some None) \<and>
   (var_sha256sum v \<noteq> [] \<and> unverified env v deb0 \<and>
    (\<forall>u \<in> set (sources env v mirrors). \<forall>b. env_curl env u = Some b \<longrightarrow>
       env_sha256 env b \<noteq> var_sha256sum v) \<longrightarrow>
      map_option snd (download_deb env v mirrors deb0) = Some (sources env v mirrors))"
  proof (intro conjI allI impI)
    show "\<exists>k \<le> length (sources env v mirrors).
        map_option snd (download_deb env v mirrors deb0) = Some (take k (sources env v mirrors))"
      using try_urls_attempted[of "sources env v mirrors" env v "\<lparr>deb = deb0, attempted = []\<rparr>"]
      by (simp add: dd)
  next
    fix us u rest b
    assume h: "var_sha256sum v \<noteq> [] \<and> unverified env v deb0 \<and>
        sources env v mirrors = us @ u # rest \<and>
        (\<forall>u' \<in> set us. \<forall>b'. env_curl env u' = Some b' \<longrightarrow> env_sha256 env b' \<noteq> var_sha256sum v) \<and>
        env_curl env u = Some b \<and> env_sha256 env b = var_sha256sum v"
    then have "try_urls env v (us @ u # rest) \<lparr>deb = deb0, attempted = []\<rparr> =
        \<lparr>deb = Some b, attempted = attempted \<lparr>deb = deb0, attempted = []\<rparr> @ us @ [u]\<rparr>"
      by (intro try_urls_first_match) simp_all
    with h show "download_deb env v mirrors deb0 = Some (Some b, us @ [u])"
      by (simp add: dd)
  next
    assume "\<forall>u \<in> set (sources env v mirrors). env_curl env u = None"
    then have "deb (try_urls env v (sources env v mirrors) \<lparr>deb = None, attempted = []\<rparr>) = None"
      by (intro try_urls_nothing) simp_all
    then show "map_option fst (download_deb env v mirrors None) = Some None"
      by (simp add: dd)
  next
    assume h: "var_sha256sum v \<noteq> [] \<and> unverified env v deb0 \<and>
      (\<forall>u \<in> set (sources env v mirrors). \<forall>b. env_curl env u = Some b \<longrightarrow>
         env_sha256 env b \<noteq> var_sha256sum v)"
    then have "attempted (try_urls env v (sources env v mirrors) \<lparr>deb = deb0, attempted = []\<rparr>) =
        attempted \<lparr>deb = deb0, attempted = []\<rparr> @ sources env v mirrors"
      by (intro try_urls_no_match) simp_all
    then show "map_option snd (download_deb env v mirrors deb0) = Some (sources env v mirrors)"
      by (simp add: dd)
  qed
qed

lemmas eval_plain =
  script_plain_def plain_word_def plain_char_def tmpdir_def startswith_def sources_def
  mirror_cache_url_def

theorem download_deb_source_order_witness:
  "download_deb
     \<lparr>env_sha256 = (\<lambda>b. b),
      env_curl = (\<lambda>u. if u = ''http://B/pool/main/a.deb'' then Some ''good''
                      else if u = ''http://A/pool/main/a.deb'' then Some ''bad'' else None),
      env_pwd = ''/w'', env_builddir = ''_build''\<rparr>
     \<lparr>var_sha256sum = ''good'', var_filename = ''pool/main/a.deb'',
      var_aptly_pool_filename = ''ab/cd/ef_a.deb''\<rparr>
     [''http://A'', ''http://B''] None =
   Some (Some ''good'',
    [''file:///w/_build/apt/mirror/pool/main/a.deb'', ''http://A/pool/main/a.deb'',
     ''http://A/ab/cd/ef_a.deb'', ''file:///w/_build/apt/mirror/pool/main/a.deb'',
     ''http://B/pool/main/a.deb'']) \<and>
   map_option fst (download_deb
     \<lparr>env_sha256 = (\<lambda>b. b), env_curl = (\<lambda>u. None), env_pwd = ''/w'',
      env_builddir = ''_build''\<rparr>
     \<lparr>var_sha256sum = ''good'', var_filename = ''pool/main/a.deb'',
      var_aptly_pool_filename = ''ab/cd/ef_a.deb''\<rparr>
     [''http://A'', ''http://B''] None) = Some None \<and>
   map_option snd (download_deb
     \<lparr>env_sha256 = (\<lambda>b. b), env_curl = (\<lambda>u. None), env_pwd = ''/w'',
      env_builddir = ''_build''\<rparr>
     \<lparr>var_sha256sum = ''good'', var_filename = ''pool/main/a.deb'',
      var_aptly_pool_filename = ''ab/cd/ef_a.deb''\<rparr>
     [''http://A'', ''http://B''] None) =
   Some [''file:///w/_build/apt/mirror/pool/main/a.deb'', ''http://A/pool/main/a.deb'',
     ''http://A/ab/cd/ef_a.deb'', ''file:///w/_build/apt/mirror/pool/main/a.deb'',
     ''http://B/pool/main/a.deb'', ''http://B/ab/cd/ef_a.deb'']"
proof -
  let ?env = "\<lparr>env_sha256 = (\<lambda>b. b),
      env_curl = (\<lambda>u. if u = ''http://B/pool/main/a.deb'' then Some ''good''
                      else if u = ''http://A/pool/main/a.deb'' then Some ''bad'' else None),
      env_pwd = ''/w'', env_builddir = ''_build''\<rparr>"
  let ?none = "\<lparr>env_sha256 = (\<lambda>b. b), env_curl = (\<lambda>u. None), env_pwd = ''/w'',
      env_builddir = ''_build''\<rparr>"
  let ?v = "\<lparr>var_sha256sum = ''good'', var_filename = ''pool/main/a.deb'',
      var_aptly_pool_filename = ''ab/cd/ef_a.deb''\<rparr>"
  have h1: "script_plain ?env ?v \<and> list_all plain_word (sources ?env ?v [''http://A'', ''http://B''])"
    by (simp add: eval_plain)
  have h2: "script_plain ?none ?v \<and> list_all plain_word (sources ?none ?v [''http://A'', ''http://B''])"
    by (simp add: eval_plain)
  note t1 = download_deb_source_order[of ?env ?v "[''http://A'', ''http://B'']" None, THEN mp, OF h1]
  note t2 = download_deb_source_order[of ?none ?v "[''http://A'', ''http://B'']" None, THEN mp, OF h2]
  have 1: "download_deb ?env ?v [''http://A'', ''http://B''] None =
      Some (Some ''good'',
       [''file:///w/_build/apt/mirror/pool/main/a.deb'', ''http://A/pool/main/a.deb'',
        ''http://A/ab/cd/ef_a.deb'', ''file:///w/_build/apt/mirror/pool/main/a.deb''] @
       [''http://B/pool/main/a.deb''])"
    by (rule t1[THEN conjunct2, THEN conjunct1, rule_format,
          of _ _ "[''http://B/ab/cd/ef_a.deb'']"])
       (simp add: sources_def mirror_cache_url_def unverified_def)
  have 2: "map_option fst (download_deb ?none ?v [''http://A'', ''http://B''] None) = Some None"
    by (rule t2[THEN conjunct2, THEN conjunct2, THEN conjunct1, rule_format]) simp
  have "map_option snd (download_deb ?none ?v [''http://A'', ''http://B''] None) =
      Some (sources ?none ?v [''http://A'', ''http://B''])"
    by (rule t2[THEN conjunct2, THEN conjunct2, THEN conjunct2, rule_format])
       (simp add: unverified_def)
  then have 3: "map_option snd (download_deb ?none ?v [''http://A'', ''http://B''] None) =
      Some [''file:///w/_build/apt/mirror/pool/main/a.deb'', ''http://A/pool/main/a.deb'',
        ''http://A/ab/cd/ef_a.deb'', ''file:///w/_build/apt/mirror/pool/main/a.deb'',
        ''http://B/pool/main/a.deb'', ''http://B/ab/cd/ef_a.deb'']"
    by (simp add: sources_def mirror_cache_url_def)
  from 1 2 3 show ?thesis by simp
qed

text \<open>
  Claim C3 as stated gives another order: the cache keyed by the pool path, every
  mirror once, then the pool path on the last mirror. With two mirrors and nothing
  to find, the script tries six URLs; the second mirror comes after the first
  mirror's pool path, and the cache is asked by filename, once per mirror.
\<close>

theorem download_deb_order_differs:
  "map_option snd (download_deb
     \<lparr>env_sha256 = (\<lambda>b. b), env_curl = (\<lambda>u. None), env_pwd = ''/w'',
      env_builddir = ''_build''\<rparr>
     \<lparr>var_sha256sum = ''good'', var_filename = ''pool/main/a.deb'',
      var_aptly_pool_filename = ''ab/cd/ef_a.deb''\<rparr>
     [''http://A'', ''http://B''] None) =
   Some [''file:///w/_build/apt/mirror/pool/main/a.deb'', ''http://A/pool/main/a.deb'',
    ''http://A/ab/cd/ef_a.deb'', ''file:///w/_build/apt/mirror/pool/main/a.deb'',
    ''http://B/pool/main/a.deb'', ''http://B/ab/cd/ef_a.deb''] \<and>
   spec_sources
     \<lparr>env_sha256 = (\<lambda>b. b), env_curl = (\<lambda>u. None), env_pwd = ''/w'',
      env_builddir = ''_build''\<rparr>
     \<lparr>var_sha256sum = ''good'', var_filename = ''pool/main/a.deb'',
      var_aptly_pool_filename = ''ab/cd/ef_a.deb''\<rparr>
     [''http://A'', ''http://B''] =
   [''file:///w/_build/apt/mirror/ab/cd/ef_a.deb'', ''http://A/pool/main/a.deb'',
    ''http://B/pool/main/a.deb'', ''http://B/ab/cd/ef_a.deb''] \<and>
   map_option snd (download_deb
     \<lparr>env_sha256 = (\<lambda>b. b), env_curl = (\<lambda>u. None), env_pwd = ''/w'',
      env_builddir = ''_build''\<rparr>
     \<lparr>var_sha256sum = ''good'', var_filename = ''pool/main/a.deb'',
      var_aptly_pool_filename = ''ab/cd/ef_a.deb''\<rparr>
     [''http://A'', ''http://B''] None) \<noteq>
   Some (spec_sources
     \<lparr>env_sha256 = (\<lambda>b. b), env_curl = (\<lambda>u. None), env_pwd = ''/w'',
      env_builddir = ''_build''\<rparr>
     \<lparr>var_sha256sum = ''good'', var_filename = ''pool/main/a.deb'',
      var_aptly_pool_filename = ''ab/cd/ef_a.deb''\<rparr>
     [''http://A'', ''http://B''])"
  by (simp add: download_deb_def download_def download_run_def spec_sources_def eval_plain)

text \<open>
  What the script does when a source yields bytes of another digest and no source
  matches: the test after the loop only asks whether \<open>$tmpdir/deb\<close> exists, so the
  script goes on with the bytes downloaded last.
\<close>

lemma download_deb_keeps_mismatching_bytes:
  "download_deb
     \<lparr>env_sha256 = (\<lambda>b. b),
      env_curl = (\<lambda>u. if u = ''http://A/pool/main/a.deb'' then Some ''bad'' else None),
      env_pwd = ''/w'', env_builddir = ''_build''\<rparr>
     \<lparr>var_sha256sum = ''good'', var_filename = ''pool/main/a.deb'',
      var_aptly_pool_filename = ''ab/cd/ef_a.deb''\<rparr>
     [''http://A''] None =
   Some (Some ''bad'',
    [''file:///w/_build/apt/mirror/pool/main/a.deb'', ''http://A/pool/main/a.deb'',
     ''http://A/ab/cd/ef_a.deb''])"
  by (simp add: download_deb_def download_def download_run_def eval_plain)

text \<open>
  A filename with a space is outside the model: the shell would split the text.
\<close>

lemma download_deb_not_plain:
  "download_deb
     \<lparr>env_sha256 = (\<lambda>b. b), env_curl = (\<lambda>u. None), env_pwd = ''/w'',
      env_builddir = ''_build''\<rparr>
     \<lparr>var_sha256sum = ''good'', var_filename = ''pool/main/a b.deb'',
      var_aptly_pool_filename = ''ab/cd/ef_a b.deb''\<rparr>
     [''http://A''] None = None"
  by (simp add: download_deb_def eval_plain)

section \<open>Properties of overwrite-if-changed\<close>

lemma tmp_status_neq [simp]:
  "builddir @ ''/tmp/make_dpkg_info/'' @ s @ x \<noteq> builddir @ ''/'' @ (''deb/pool/'' @ r) @ y"
  by simp

lemma dst_neq_tmp [simp]:
  "builddir @ ''/'' @ (''deb/pool/'' @ r) @ y \<noteq> builddir @ ''/tmp/make_dpkg_info/'' @ s @ x"
  by simp



section \<open>Properties of generate_lockfile and image_from_lockfile\<close>

lemma sort_mset_eq: "mset ps = mset qs \<Longrightarrow> sort ps = sort (qs :: string list)"
  by (rule properties_for_sort) simp_all

text \<open>
  Claim C9. Two package lists that are permutations of each other give the same
  result of \<open>generate_lockfile\<close>: the same call of the update_lockfile rule, the
  same set of lockfile rules and the same return value. The variable \<open>packages\<close> of
  the call is the concatenation of \<open>"| " + x\<close> over the sorted names.
\<close>

theorem generate_lockfile_permutation:
  "(mset ps = mset qs \<longrightarrow>
      generate_lockfile self lockfile (Some ps) architecture distribution archive_url =
      generate_lockfile self lockfile (Some qs) architecture distribution archive_url) \<and>
   map_of (variables (last (builds (snd
      (generate_lockfile self lockfile (Some ps) architecture distribution archive_url)))))
     ''packages'' = Some (concat (map (\<lambda>x. ''| '' @ x) (sort ps)))"
proof
  show "mset ps = mset qs \<longrightarrow>
      generate_lockfile self lockfile (Some ps) architecture distribution archive_url =
      generate_lockfile self lockfile (Some qs) architecture distribution archive_url"
    by (auto simp: generate_lockfile_def dest: sort_mset_eq)
next
  show "map_of (variables (last (builds (snd
      (generate_lockfile self lockfile (Some ps) architecture distribution archive_url)))))
     ''packages'' = Some (concat (map (\<lambda>x. ''| '' @ x) (sort ps)))"
    by (simp add: generate_lockfile_def update_lockfile_build_def rule_build_def Let_def)
qed

theorem generate_lockfile_permutation_witness:
  "generate_lockfile \<lparr>builds = [], files = [], deb_pool_mirrors = [], update_lockfile_rules = {}\<rparr>
     ''a.lock'' (Some [''vim'', ''bash'', ''curl'']) None None None =
   generate_lockfile \<lparr>builds = [], files = [], deb_pool_mirrors = [], update_lockfile_rules = {}\<rparr>
     ''a.lock'' (Some [''curl'', ''vim'', ''bash'']) None None None \<and>
   map_of (variables (last (builds (snd
      (generate_lockfile \<lparr>builds = [], files = [], deb_pool_mirrors = [], update_lockfile_rules = {}\<rparr>
     ''a.lock'' (Some [''vim'', ''bash'', ''curl'']) None None None)))))
     ''packages'' = Some ''| bash| curl| vim''"
proof -
  let ?self = "\<lparr>builds = [], files = [], deb_pool_mirrors = [], update_lockfile_rules = {}\<rparr>"
  have s: "sort [''vim'', ''bash'', ''curl''] = [''bash'', ''curl'', ''vim'']" by code_simp
  have m: "mset [''vim'', ''bash'', ''curl''] = mset [''curl'', ''vim'', ''bash'']" by simp
  note th = generate_lockfile_permutation[of "[''vim'', ''bash'', ''curl'']"
        "[''curl'', ''vim'', ''bash'']" ?self "''a.lock''" None None None]
  from th[THEN conjunct1] m have 1: "generate_lockfile ?self ''a.lock'' (Some [''vim'', ''bash'', ''curl'']) None None None =
      generate_lockfile ?self ''a.lock'' (Some [''curl'', ''vim'', ''bash'']) None None None"
    by blast
  from th[THEN conjunct2] have 2: "map_of (variables (last (builds (snd
      (generate_lockfile ?self ''a.lock'' (Some [''vim'', ''bash'', ''curl'']) None None None)))))
     ''packages'' = Some ''| bash| curl| vim''"
    unfolding s by simp
  from 1 2 show ?thesis by (rule conjI)
qed

lemma read_lockfile_missing:
  "read_lockfile self (Inl (IOError ENOENT)) = read_lockfile self (Inr [])"
  by (simp add: read_lockfile_def parse_packages_def)

text \<open>
  Claim C6. When opening the lockfile raises \<open>IOError\<close> with errno \<open>ENOENT\<close>,
  \<open>image_from_lockfile\<close> does not raise. It writes the mirror list and makes exactly
  these calls, in this order: dpkg_base; ostree_combine for \<open>data_combined\<close> and for
  \<open>info_combined\<close>, and deb_combine_meta for \<open>status\<close> and for \<open>available\<close>, all
  four with no input, the package set being empty; ostree_combine of the base tree
  and these four into the branch \<open>deb/images/<digest>/unpacked\<close>, with the lockfile
  as implicit input; and the phony target for the image. It returns the ref of
  that branch. This is what it does for an empty lockfile, and there is no
  download_deb or make_dpkg_info call. Any other \<open>IOError\<close> of the open is raised
  to the caller.
\<close>

theorem image_from_lockfile_missing_lockfile:
  "image_from_lockfile self (Inl (IOError ENOENT)) lockfile architecture =
     Inr (OstreeRef (RepoRef (''deb/images/'' @ replace_char CHR ''/'' CHR ''_'' lockfile @
                                ''/unpacked'')),
          self\<lparr>builds := builds self @
             [\<lparr>outputs = [], rule = ''dpkg_base'', inputs = [], implicit = [],
               variables = [(''architecture'',
                 (case architecture of None \<Rightarrow> ''amd64'' | Some x \<Rightarrow> x))]\<rparr>,
              \<lparr>outputs = [], rule = ''ostree_combine'', inputs = [], implicit = [],
               variables = [(''branch'', ''deb/images/'' @
                 replace_char CHR ''/'' CHR ''_'' lockfile @ ''/data_combined'')]\<rparr>,
              \<lparr>outputs = [], rule = ''ostree_combine'', inputs = [], implicit = [],
               variables = [(''branch'', ''deb/images/'' @
                 replace_char CHR ''/'' CHR ''_'' lockfile @ ''/info_combined'')]\<rparr>,
              \<lparr>outputs = [], rule = ''deb_combine_meta'', inputs = [], implicit = [],
               variables = [(''pkgs_digest'', replace_char CHR ''/'' CHR ''_'' lockfile),
                 (''meta'', ''status'')]\<rparr>,
              \<lparr>outputs = [], rule = ''deb_combine_meta'', inputs = [], implicit = [],
               variables = [(''pkgs_digest'', replace_char CHR ''/'' CHR ''_'' lockfile),
                 (''meta'', ''available'')]\<rparr>,
              \<lparr>outputs = [], rule = ''ostree_combine'',
               inputs =
                 [RepoRef (''deb/dpkg-base/'' @
                    (case architecture of None \<Rightarrow> ''amd64'' | Some x \<Rightarrow> x)),
                  RepoRef (''deb/images/'' @ replace_char CHR ''/'' CHR ''_'' lockfile @
                    ''/info_combined''),
                  RepoRef (''deb/images/'' @ replace_char CHR ''/'' CHR ''_'' lockfile @
                    ''/status''),
                  RepoRef (''deb/images/'' @ replace_char CHR ''/'' CHR ''_'' lockfile @
                    ''/available''),
                  RepoRef (''deb/images/'' @ replace_char CHR ''/'' CHR ''_'' lockfile @
                    ''/data_combined'')],
               implicit = [Path lockfile],
               variables = [(''branch'', ''deb/images/'' @
                 replace_char CHR ''/'' CHR ''_'' lockfile @ ''/unpacked'')]\<rparr>,
              \<lparr>outputs = [Path (''unpacked-image-for-'' @ lockfile)], rule = ''phony'',
               inputs = [RepoRef (''deb/images/'' @ replace_char CHR ''/'' CHR ''_'' lockfile @
                 ''/unpacked'')],
               implicit = [], variables = []\<rparr>],
            files := files self @
             [(''_build/deb_pool_mirrors'',
               concat (map (\<lambda>x. x @ [CHR 0x0A]) (deb_pool_mirrors self)))]\<rparr>) \<and>
   image_from_lockfile self (Inl (IOError ENOENT)) lockfile architecture =
     image_from_lockfile self (Inr []) lockfile architecture \<and>
   (\<exists>self'. image_from_lockfile self (Inl (IOError ENOENT)) lockfile architecture =
        Inr (OstreeRef (RepoRef (''deb/images/'' @ replace_char CHR ''/'' CHR ''_'' lockfile @
                                  ''/unpacked'')), self') \<and>
      (\<forall>b \<in> set (builds self') - set (builds self).
         rule b \<noteq> ''download_deb'' \<and> rule b \<noteq> ''make_dpkg_info'') \<and>
      last (builds self') =
        \<lparr>outputs = [Path (''unpacked-image-for-'' @ lockfile)], rule = ''phony'',
         inputs = [RepoRef (''deb/images/'' @ replace_char CHR ''/'' CHR ''_'' lockfile @
                             ''/unpacked'')],
         implicit = [], variables = []\<rparr>) \<and>
   (\<forall>errno. errno \<noteq> ENOENT \<longrightarrow>
      image_from_lockfile self (Inl (IOError errno)) lockfile architecture = Inl (IOError errno))"
proof (intro conjI allI impI)
  show "image_from_lockfile self (Inl (IOError ENOENT)) lockfile architecture =
     Inr (OstreeRef (RepoRef (''deb/images/'' @ replace_char CHR ''/'' CHR ''_'' lockfile @
                                ''/unpacked'')),
          self\<lparr>builds := builds self @
             [\<lparr>outputs = [], rule = ''dpkg_base'', inputs = [], implicit = [],
               variables = [(''architecture'',
                 (case architecture of None \<Rightarrow> ''amd64'' | Some x \<Rightarrow> x))]\<rparr>,
              \<lparr>outputs = [], rule = ''ostree_combine'', inputs = [], implicit = [],
               variables = [(''branch'', ''deb/images/'' @
                 replace_char CHR ''/'' CHR ''_'' lockfile @ ''/data_combined'')]\<rparr>,
              \<lparr>outputs = [], rule = ''ostree_combine'', inputs = [], implicit = [],
               variables = [(''branch'', ''deb/images/'' @
                 replace_char CHR ''/'' CHR ''_'' lockfile @ ''/info_combined'')]\<rparr>,
              \<lparr>outputs = [], rule = ''deb_combine_meta'', inputs = [], implicit = [],
               variables = [(''pkgs_digest'', replace_char CHR ''/'' CHR ''_'' lockfile),
                 (''meta'', ''status'')]\<rparr>,
              \<lparr>outputs = [], rule = ''deb_combine_meta'', inputs = [], implicit = [],
               variables = [(''pkgs_digest'', replace_char CHR ''/'' CHR ''_'' lockfile),
                 (''meta'', ''available'')]\<rparr>,
              \<lparr>outputs = [], rule = ''ostree_combine'',
               inputs =
                 [RepoRef (''deb/dpkg-base/'' @
                    (case architecture of None \<Rightarrow> ''amd64'' | Some x \<Rightarrow> x)),
                  RepoRef (''deb/images/'' @ replace_char CHR ''/'' CHR ''_'' lockfile @
                    ''/info_combined''),
                  RepoRef (''deb/images/'' @ replace_char CHR ''/'' CHR ''_'' lockfile @
                    ''/status''),
                  RepoRef (''deb/images/'' @ replace_char CHR ''/'' CHR ''_'' lockfile @
                    ''/available''),
                  RepoRef (''deb/images/'' @ replace_char CHR ''/'' CHR ''_'' lockfile @
                    ''/data_combined'')],
               implicit = [Path lockfile],
               variables = [(''branch'', ''deb/images/'' @
                 replace_char CHR ''/'' CHR ''_'' lockfile @ ''/unpacked'')]\<rparr>,
              \<lparr>outputs = [Path (''unpacked-image-for-'' @ lockfile)], rule = ''phony'',
               inputs = [RepoRef (''deb/images/'' @ replace_char CHR ''/'' CHR ''_'' lockfile @
                 ''/unpacked'')],
               implicit = [], variables = []\<rparr>],
            files := files self @
             [(''_build/deb_pool_mirrors'',
               concat (map (\<lambda>x. x @ [CHR 0x0A]) (deb_pool_mirrors self)))]\<rparr>)"
    by (simp add: image_from_lockfile_def read_lockfile_def dpkg_base_build_def
        ostree_combine_build_def deb_combine_meta_build_def rule_build_def ninja_build_def
        Let_def)
next
  show "image_from_lockfile self (Inl (IOError ENOENT)) lockfile architecture =
     image_from_lockfile self (Inr []) lockfile architecture"
    by (simp add: image_from_lockfile_def read_lockfile_missing)
next
  show "\<exists>self'. image_from_lockfile self (Inl (IOError ENOENT)) lockfile architecture =
        Inr (OstreeRef (RepoRef (''deb/images/'' @ replace_char CHR ''/'' CHR ''_'' lockfile @
                                  ''/unpacked'')), self') \<and>
      (\<forall>b \<in> set (builds self') - set (builds self).
         rule b \<noteq> ''download_deb'' \<and> rule b \<noteq> ''make_dpkg_info'') \<and>
      last (builds self') =
        \<lparr>outputs = [Path (''unpacked-image-for-'' @ lockfile)], rule = ''phony'',
         inputs = [RepoRef (''deb/images/'' @ replace_char CHR ''/'' CHR ''_'' lockfile @
                             ''/unpacked'')],
         implicit = [], variables = []\<rparr>"
    by (auto simp: image_from_lockfile_def read_lockfile_def dpkg_base_build_def
        ostree_combine_build_def deb_combine_meta_build_def rule_build_def ninja_build_def
        Let_def)
next
  fix errno :: nat
  assume "errno \<noteq> ENOENT"
  then show "image_from_lockfile self (Inl (IOError errno)) lockfile architecture =
      Inl (IOError errno)"
    by (simp add: image_from_lockfile_def read_lockfile_def dpkg_base_build_def Let_def)
qed

theorem image_from_lockfile_missing_lockfile_witness:
  "image_from_lockfile
     \<lparr>builds = [], files = [], deb_pool_mirrors = [''http://A''], update_lockfile_rules = {}\<rparr>
     (Inl (IOError 2)) ''dir/a.lock'' None =
   Inr (OstreeRef (RepoRef ''deb/images/dir_a.lock/unpacked''),
        \<lparr>builds =
           [\<lparr>outputs = [], rule = ''dpkg_base'', inputs = [], implicit = [],
             variables = [(''architecture'', ''amd64'')]\<rparr>,
            \<lparr>outputs = [], rule = ''ostree_combine'', inputs = [], implicit = [],
             variables = [(''branch'', ''deb/images/dir_a.lock/data_combined'')]\<rparr>,
            \<lparr>outputs = [], rule = ''ostree_combine'', inputs = [], implicit = [],
             variables = [(''branch'', ''deb/images/dir_a.lock/info_combined'')]\<rparr>,
            \<lparr>outputs = [], rule = ''deb_combine_meta'', inputs = [], implicit = [],
             variables = [(''pkgs_digest'', ''dir_a.lock''), (''meta'', ''status'')]\<rparr>,
            \<lparr>outputs = [], rule = ''deb_combine_meta'', inputs = [], implicit = [],
             variables = [(''pkgs_digest'', ''dir_a.lock''), (''meta'', ''available'')]\<rparr>,
            \<lparr>outputs = [], rule = ''ostree_combine'',
             inputs =
               [RepoRef ''deb/dpkg-base/amd64'', RepoRef ''deb/images/dir_a.lock/info_combined'',
                RepoRef ''deb/images/dir_a.lock/status'',
                RepoRef ''deb/images/dir_a.lock/available'',
                RepoRef ''deb/images/dir_a.lock/data_combined''],
             implicit = [Path ''dir/a.lock''],
             variables = [(''branch'', ''deb/images/dir_a.lock/unpacked'')]\<rparr>,
            \<lparr>outputs = [Path ''unpacked-image-for-dir/a.lock''], rule = ''phony'',
             inputs = [RepoRef ''deb/images/dir_a.lock/unpacked''], implicit = [],
             variables = []\<rparr>],
         files = [(''_build/deb_pool_mirrors'', ''http://A\<newline>'')],
         deb_pool_mirrors = [''http://A''], update_lockfile_rules = {}\<rparr>) \<and>
   image_from_lockfile
     \<lparr>builds = [], files = [], deb_pool_mirrors = [''http://A''], update_lockfile_rules = {}\<rparr>
     (Inl (IOError 13)) ''dir/a.lock'' None = Inl (IOError 13)"
proof -
  let ?self = "\<lparr>builds = [], files = [], deb_pool_mirrors = [''http://A''],
      update_lockfile_rules = {}\<rparr>"
  note th = image_from_lockfile_missing_lockfile[of ?self "''dir/a.lock''" None]
  have e: "IOError 2 = IOError ENOENT" by (simp add: ENOENT_def)
  have k: "replace_char CHR ''/'' CHR ''_'' ''dir/a.lock'' = ''dir_a.lock''"
    by (simp add: replace_char_def)
  from th[THEN conjunct1] have 1: "image_from_lockfile ?self (Inl (IOError 2)) ''dir/a.lock'' None =
      Inr (OstreeRef (RepoRef ''deb/images/dir_a.lock/unpacked''),
        \<lparr>builds =
           [\<lparr>outputs = [], rule = ''dpkg_base'', inputs = [], implicit = [],
             variables = [(''architecture'', ''amd64'')]\<rparr>,
            \<lparr>outputs = [], rule = ''ostree_combine'', inputs = [], implicit = [],
             variables = [(''branch'', ''deb/images/dir_a.lock/data_combined'')]\<rparr>,
            \<lparr>outputs = [], rule = ''ostree_combine'', inputs = [], implicit = [],
             variables = [(''branch'', ''deb/images/dir_a.lock/info_combined'')]\<rparr>,
            \<lparr>outputs = [], rule = ''deb_combine_meta'', inputs = [], implicit = [],
             variables = [(''pkgs_digest'', ''dir_a.lock''), (''meta'', ''status'')]\<rparr>,
            \<lparr>outputs = [], rule = ''deb_combine_meta'', inputs = [], implicit = [],
             variables = [(''pkgs_digest'', ''dir_a.lock''), (''meta'', ''available'')]\<rparr>,
            \<lparr>outputs = [], rule = ''ostree_combine'',
             inputs =
               [RepoRef ''deb/dpkg-base/amd64'', RepoRef ''deb/images/dir_a.lock/info_combined'',
                RepoRef ''deb/images/dir_a.lock/status'',
                RepoRef ''deb/images/dir_a.lock/available'',
                RepoRef ''deb/images/dir_a.lock/data_combined''],
             implicit = [Path ''dir/a.lock''],
             variables = [(''branch'', ''deb/images/dir_a.lock/unpacked'')]\<rparr>,
            \<lparr>outputs = [Path ''unpacked-image-for-dir/a.lock''], rule = ''phony'',
             inputs = [RepoRef ''deb/images/dir_a.lock/unpacked''], implicit = [],
             variables = []\<rparr>],
         files = [(''_build/deb_pool_mirrors'', ''http://A\<newline>'')],
         deb_pool_mirrors = [''http://A''], update_lockfile_rules = {}\<rparr>)"
    unfolding e k by simp
  have "(13::nat) \<noteq> ENOENT" by (simp add: ENOENT_def)
  with th[THEN conjunct2, THEN conjunct2, THEN conjunct2] have 2:
    "image_from_lockfile ?self (Inl (IOError 13)) ''dir/a.lock'' None = Inl (IOError 13)"
    by blast
  from 1 2 show ?thesis by (rule conjI)
qed

section \<open>Properties of the image refs\<close>

lemma startswith_split:
  assumes "startswith (k @ c # t) old" and "c \<notin> set old"
  shows "\<exists>b. k = old @ b"
proof -
  from assms(1) have t: "take (length old) (k @ c # t) = old" by (simp add: startswith_def)
  show ?thesis
  proof (cases "length old \<le> length k")
    case True
    with t have "take (length old) k = old" by simp
    then have "k = old @ drop (length old) k" by (metis append_take_drop_id)
    then show ?thesis by blast
  next
    case False
    then have "length k < length old" by simp
    then have "take (length old) (k @ c # t) ! length k = c"
      by (simp add: nth_append)
    with t have "old ! length k = c" by simp
    with \<open>length k < length old\<close> have "c \<in> set old" by (metis nth_mem)
    with assms(2) show ?thesis by simp
  qed
qed

lemma str_replace_no_occurrence:
  assumes "old \<noteq> []" and "c \<notin> set old"
  shows "(\<nexists>a b. k = a @ old @ b) \<Longrightarrow>
         str_replace old new (k @ c # t) = k @ c # str_replace old new t"
proof (induction k)
  case Nil
  from assms have "\<not> startswith (c # t) old" by (cases old) (auto simp: startswith_def)
  then show ?case by simp
next
  case (Cons x k)
  have n: "\<not> startswith ((x # k) @ c # t) old"
  proof
    assume "startswith ((x # k) @ c # t) old"
    from startswith_split[OF this assms(2)] obtain b where "x # k = [] @ old @ b" by auto
    with Cons.prems show False by blast
  qed
  have "\<nexists>a b. k = a @ old @ b"
  proof
    assume "\<exists>a b. k = a @ old @ b"
    then obtain a b where "k = a @ old @ b" by blast
    then have "x # k = (x # a) @ old @ b" by simp
    with Cons.prems show False by blast
  qed
  with Cons.IH n show ?case by simp
qed

lemma configured_branch:
  assumes "\<nexists>a b. k = a @ ''unpacked'' @ b"
  shows "str_replace ''unpacked'' ''configured'' (''deb/images/'' @ k @ ''/unpacked'') =
         ''deb/images/'' @ k @ ''/configured''"
proof -
  have "str_replace ''unpacked'' ''configured'' (k @ CHR ''/'' # ''unpacked'') =
        k @ CHR ''/'' # str_replace ''unpacked'' ''configured'' ''unpacked''"
    using assms by (intro str_replace_no_occurrence) simp_all
  then have "str_replace ''unpacked'' ''configured'' (k @ ''/unpacked'') = k @ ''/configured''"
    by (simp add: startswith_def)
  then show ?thesis by (simp add: startswith_def)
qed




lemma image_from_lockfile_cases:
  "(\<exists>e. image_from_lockfile self opened lockfile architecture = Inl e) \<or>
   (\<exists>self'. image_from_lockfile self opened lockfile architecture =
      Inr (OstreeRef (RepoRef (''deb/images/'' @ replace_char CHR ''/'' CHR ''_'' lockfile @
                                ''/unpacked'')), self'))"
proof -
  obtain base self1 where b: "dpkg_base_build
      (case architecture of None \<Rightarrow> ''amd64'' | Some x \<Rightarrow> x) self = (base, self1)"
    by (cases "dpkg_base_build (case architecture of None \<Rightarrow> ''amd64'' | Some x \<Rightarrow> x) self")
  let ?self2 = "self1\<lparr>files := files self1 @
            [(''_build/deb_pool_mirrors'',
              concat (map (\<lambda>x. x @ [CHR 0x0A]) (deb_pool_mirrors self1)))]\<rparr>"
  show ?thesis
  proof (cases "read_lockfile ?self2 opened")
    case (Inl e)
    with b show ?thesis by (simp add: image_from_lockfile_def Let_def)
  next
    case (Inr p)
    obtain self3 l where "p = (self3, l)" by (cases p)
    with Inr b show ?thesis
      by (simp add: image_from_lockfile_def Let_def ostree_combine_build_def
          deb_combine_meta_build_def)
  qed
qed

lemma image_from_lockfile_ref:
  assumes "image_from_lockfile self opened lockfile architecture = Inr (r, self')"
  shows "r = OstreeRef (RepoRef (''deb/images/'' @ replace_char CHR ''/'' CHR ''_'' lockfile @ ''/unpacked''))"
proof -
  from image_from_lockfile_cases[of self opened lockfile architecture]
  consider (err) e where "image_from_lockfile self opened lockfile architecture = Inl e"
    | (ok) s where "image_from_lockfile self opened lockfile architecture =
        Inr (OstreeRef (RepoRef (''deb/images/'' @ replace_char CHR ''/'' CHR ''_'' lockfile @
                                  ''/unpacked'')), s)"
    by blast
  then show ?thesis
  proof cases
    case err
    with assms show ?thesis by simp
  next
    case ok
    with assms show ?thesis by simp
  qed
qed

lemma build_image_ref:
  assumes "build_image self opened lockfile packages architecture distribution archive_url =
        Inr (r, self')"
  shows "r = OstreeRef (RepoRef (str_replace ''unpacked'' ''configured''
            (''deb/images/'' @ replace_char CHR ''/'' CHR ''_'' lockfile @ ''/unpacked'')))"
proof -
  obtain lf self1 where g: "generate_lockfile self lockfile packages architecture distribution
      archive_url = (lf, self1)"
    by (cases "generate_lockfile self lockfile packages architecture distribution archive_url")
  show ?thesis
  proof (cases "image_from_lockfile self1 opened lockfile architecture")
    case (Inl e)
    with g assms show ?thesis by (simp add: build_image_def build_image_unpacked_def)
  next
    case (Inr p)
    obtain u self2 where p: "p = (u, self2)" by (cases p)
    from Inr p have i: "image_from_lockfile self1 opened lockfile architecture = Inr (u, self2)"
      by simp
    have u: "u = OstreeRef (RepoRef (''deb/images/'' @
        replace_char CHR ''/'' CHR ''_'' lockfile @ ''/unpacked''))"
      by (rule image_from_lockfile_ref[OF i])
    from assms have "r = OstreeRef (RepoRef (str_replace ''unpacked'' ''configured'' (ref u)))"
      unfolding build_image_def build_image_unpacked_def g i dpkg_configure_build_def
      by (simp add: i del: str_replace.simps)
    then show ?thesis by (simp only: u ref.simps)
  qed
qed


lemma map_slash_eq:
  "map (\<lambda>c. if c = CHR ''/'' then CHR ''_'' else c) m = m' \<Longrightarrow> CHR ''_'' \<notin> set m' \<Longrightarrow> m = m'"
  by (induction m arbitrary: m') (auto split: if_splits)

lemma replace_char_no_occurrence:
  assumes "\<nexists>a b. lockfile = a @ ''unpacked'' @ b"
  shows "\<nexists>a b. replace_char CHR ''/'' CHR ''_'' lockfile = a @ ''unpacked'' @ b"
proof
  let ?f = "\<lambda>c. if c = CHR ''/'' then CHR ''_'' else c"
  assume "\<exists>a b. replace_char CHR ''/'' CHR ''_'' lockfile = a @ ''unpacked'' @ b"
  then obtain a b where ab: "map ?f lockfile = a @ ''unpacked'' @ b"
    by (auto simp: replace_char_def)
  define m where "m = take 8 (drop (length a) lockfile)"
  have "map ?f m = take 8 (drop (length a) (map ?f lockfile))"
    by (simp add: m_def take_map drop_map)
  also have "\<dots> = ''unpacked''" by (simp add: ab)
  finally have "m = ''unpacked''" by (rule map_slash_eq) simp
  moreover have "lockfile = take (length a) lockfile @ m @ drop 8 (drop (length a) lockfile)"
    unfolding m_def by (simp only: append_take_drop_id)
  ultimately have "lockfile = take (length a) lockfile @ ''unpacked'' @
      drop 8 (drop (length a) lockfile)"
    by simp
  with assms show False by blast
qed

text \<open>
  Claim C5, as the code has it. The image returned by \<open>image_from_lockfile\<close> is the
  ref \<open>deb/images/K/unpacked\<close>, where the key \<open>K\<close> is the path of the lockfile with
  every \<open>/\<close> replaced by \<open>_\<close>; \<open>build_image\<close> returns that ref with every
  \<open>unpacked\<close> replaced by \<open>configured\<close>, which is \<open>deb/images/K/configured\<close> when
  the lockfile path does not contain \<open>unpacked\<close>. The key is a function of the
  lockfile path alone: whatever the lockfile holds, the same path gives the same
  image ref.
\<close>

theorem image_refs_from_lockfile_path:
  "(\<forall>r self'. image_from_lockfile self opened lockfile architecture = Inr (r, self') \<longrightarrow>
      r = OstreeRef (RepoRef (''deb/images/'' @ replace_char CHR ''/'' CHR ''_'' lockfile @
                                ''/unpacked''))) \<and>
   (\<forall>r self'. build_image self opened lockfile packages architecture distribution archive_url =
        Inr (r, self') \<longrightarrow>
      r = OstreeRef (RepoRef (str_replace ''unpacked'' ''configured''
            (''deb/images/'' @ replace_char CHR ''/'' CHR ''_'' lockfile @ ''/unpacked''))) \<and>
      ((\<nexists>a b. lockfile = a @ ''unpacked'' @ b) \<longrightarrow>
        r = OstreeRef (RepoRef (''deb/images/'' @ replace_char CHR ''/'' CHR ''_'' lockfile @
                                  ''/configured'')))) \<and>
   (\<forall>opened' r self1 r' self2.
      image_from_lockfile self opened lockfile architecture = Inr (r, self1) \<and>
      image_from_lockfile self opened' lockfile architecture = Inr (r', self2) \<longrightarrow> r = r')"
proof (intro conjI allI impI)
  fix r self'
  assume "image_from_lockfile self opened lockfile architecture = Inr (r, self')"
  then show "r = OstreeRef (RepoRef (''deb/images/'' @ replace_char CHR ''/'' CHR ''_'' lockfile @
                                ''/unpacked''))"
    by (rule image_from_lockfile_ref)
next
  fix r self'
  assume "build_image self opened lockfile packages architecture distribution archive_url =
        Inr (r, self')"
  then show "r = OstreeRef (RepoRef (str_replace ''unpacked'' ''configured''
            (''deb/images/'' @ replace_char CHR ''/'' CHR ''_'' lockfile @ ''/unpacked'')))"
    by (rule build_image_ref)
next
  fix r self'
  assume "build_image self opened lockfile packages architecture distribution archive_url =
        Inr (r, self')"
  then have c: "r = OstreeRef (RepoRef (str_replace ''unpacked'' ''configured''
            (''deb/images/'' @ replace_char CHR ''/'' CHR ''_'' lockfile @ ''/unpacked'')))"
    by (rule build_image_ref)
  assume "\<nexists>a b. lockfile = a @ ''unpacked'' @ b"
  then have nn: "\<nexists>a b. replace_char CHR ''/'' CHR ''_'' lockfile = a @ ''unpacked'' @ b"
    by (rule replace_char_no_occurrence)
  show "r = OstreeRef (RepoRef (''deb/images/'' @ replace_char CHR ''/'' CHR ''_'' lockfile @
                                  ''/configured''))"
    by (simp only: c configured_branch[OF nn])
next
  fix opened' r self1 r' self2
  assume "image_from_lockfile self opened lockfile architecture = Inr (r, self1) \<and>
      image_from_lockfile self opened' lockfile architecture = Inr (r', self2)"
  then have "r = OstreeRef (RepoRef (''deb/images/'' @ replace_char CHR ''/'' CHR ''_'' lockfile @
      ''/unpacked''))" and "r' = OstreeRef (RepoRef (''deb/images/'' @
      replace_char CHR ''/'' CHR ''_'' lockfile @ ''/unpacked''))"
    by (blast dest: image_from_lockfile_ref)+
  then show "r = r'" by simp
qed

lemmas eval_image =
  image_from_lockfile_def read_lockfile_def parse_packages_def parse_line_def strip_def
  is_space_def startswith_def dict_append_def add_package_def package_names_def dict_get_def
  aptly_pool_filename_of_def ref_base_of_def basename_def replace_char_def
  dpkg_base_build_def download_deb_build_def make_dpkg_info_build_def
  ostree_combine_build_def deb_combine_meta_build_def rule_build_def ninja_build_def
  ENOENT_def Let_def

theorem image_refs_from_lockfile_path_witness:
  "map_sum id fst
     (image_from_lockfile
        \<lparr>builds = [], files = [], deb_pool_mirrors = [], update_lockfile_rules = {}\<rparr>
        (Inr ''Package: a\<newline>SHA256: abcdef01\<newline>Filename: pool/a.deb\<newline>\<newline>'')
        ''dir/a.lock'' None) =
     Inr (OstreeRef (RepoRef ''deb/images/dir_a.lock/unpacked'')) \<and>
   map_sum id fst
     (image_from_lockfile
        \<lparr>builds = [], files = [], deb_pool_mirrors = [], update_lockfile_rules = {}\<rparr>
        (Inl (IOError 2)) ''dir/a.lock'' None) =
     Inr (OstreeRef (RepoRef ''deb/images/dir_a.lock/unpacked'')) \<and>
   map_sum id fst
     (build_image
        \<lparr>builds = [], files = [], deb_pool_mirrors = [], update_lockfile_rules = {}\<rparr>
        (Inl (IOError 2)) ''dir/a.lock'' None None None None) =
     Inr (OstreeRef (RepoRef ''deb/images/dir_a.lock/configured''))"
proof -
  let ?self = "\<lparr>builds = [], files = [], deb_pool_mirrors = [], update_lockfile_rules = {}\<rparr>"
  let ?txt = "''Package: a\<newline>SHA256: abcdef01\<newline>Filename: pool/a.deb\<newline>\<newline>''"
  have k: "replace_char CHR ''/'' CHR ''_'' ''dir/a.lock'' = ''dir_a.lock''"
    by (simp add: replace_char_def)
  have "\<exists>r s. image_from_lockfile ?self (Inr ?txt) ''dir/a.lock'' None = Inr (r, s)"
    by (simp add: eval_image)
  then obtain r1 s1 where 1: "image_from_lockfile ?self (Inr ?txt) ''dir/a.lock'' None = Inr (r1, s1)"
    by blast
  have "\<exists>r s. image_from_lockfile ?self (Inl (IOError 2)) ''dir/a.lock'' None = Inr (r, s)"
    by (simp add: eval_image)
  then obtain r2 s2 where 2: "image_from_lockfile ?self (Inl (IOError 2)) ''dir/a.lock'' None = Inr (r2, s2)"
    by blast
  have "\<exists>r s. build_image ?self (Inl (IOError 2)) ''dir/a.lock'' None None None None = Inr (r, s)"
    by (simp add: build_image_def build_image_unpacked_def generate_lockfile_def
        update_lockfile_build_def dpkg_configure_build_def eval_image del: str_replace.simps)
  then obtain r3 s3 where 3: "build_image ?self (Inl (IOError 2)) ''dir/a.lock'' None None None None = Inr (r3, s3)"
    by blast
  have n: "\<nexists>a b. ''dir/a.lock'' = a @ ''unpacked'' @ b"
    using split_once_None_iff[of "''unpacked''" "''dir/a.lock''"] by (simp add: startswith_def)
  note th = image_refs_from_lockfile_path[of ?self "Inr ?txt" "''dir/a.lock''" None]
  note th2 = image_refs_from_lockfile_path[of ?self "Inl (IOError 2)" "''dir/a.lock''" None None None None]
  from th[THEN conjunct1, rule_format, OF 1] have r1: "r1 = OstreeRef (RepoRef ''deb/images/dir_a.lock/unpacked'')"
    by (simp add: k)
  from th[THEN conjunct2, THEN conjunct2, rule_format, of r1 s1 "Inl (IOError 2)" r2 s2] 1 2
  have r2: "r1 = r2" by blast
  from th2[THEN conjunct2, THEN conjunct1, rule_format, OF 3, THEN conjunct2] n
  have r3: "r3 = OstreeRef (RepoRef ''deb/images/dir_a.lock/configured'')"
    by (simp add: k)
  from 1 2 3 r1 r2 r3 show ?thesis by simp
qed

text \<open>
  Claim C5 as stated fails: the key is not a digest of the package set. Two
  lockfiles with the same content, and so the same package set, stored under two
  paths get two image refs.
\<close>

theorem image_key_is_lockfile_path:
  "map_sum id fst
     (image_from_lockfile
        \<lparr>builds = [], files = [], deb_pool_mirrors = [], update_lockfile_rules = {}\<rparr>
        (Inr ''Package: a\<newline>SHA256: abcdef01\<newline>Filename: pool/a.deb\<newline>\<newline>'')
        ''a.lock'' None) =
     Inr (OstreeRef (RepoRef ''deb/images/a.lock/unpacked'')) \<and>
   map_sum id fst
     (image_from_lockfile
        \<lparr>builds = [], files = [], deb_pool_mirrors = [], update_lockfile_rules = {}\<rparr>
        (Inr ''Package: a\<newline>SHA256: abcdef01\<newline>Filename: pool/a.deb\<newline>\<newline>'')
        ''b.lock'' None) =
     Inr (OstreeRef (RepoRef ''deb/images/b.lock/unpacked'')) \<and>
   map_sum id fst
     (image_from_lockfile
        \<lparr>builds = [], files = [], deb_pool_mirrors = [], update_lockfile_rules = {}\<rparr>
        (Inr ''Package: a\<newline>SHA256: abcdef01\<newline>Filename: pool/a.deb\<newline>\<newline>'')
        ''a.lock'' None) \<noteq>
   map_sum id fst
     (image_from_lockfile
        \<lparr>builds = [], files = [], deb_pool_mirrors = [], update_lockfile_rules = {}\<rparr>
        (Inr ''Package: a\<newline>SHA256: abcdef01\<newline>Filename: pool/a.deb\<newline>\<newline>'')
        ''b.lock'' None)"
  by (simp add: eval_image)

section \<open>Properties of combining trees\<close>

lemma fmdom_union_trees: "p |\<in>| fmdom (union_trees ts) \<longleftrightarrow> (\<exists>t \<in> set ts. p |\<in>| fmdom t)"
  by (induction ts) (auto simp: union_trees_def)

lemma disjoint_from_union:
  "fmdom t |\<inter>| fmdom (union_trees ts) = {||} \<longleftrightarrow> (\<forall>u \<in> set ts. fmdom t |\<inter>| fmdom u = {||})"
proof
  assume l: "fmdom t |\<inter>| fmdom (union_trees ts) = {||}"
  show "\<forall>u \<in> set ts. fmdom t |\<inter>| fmdom u = {||}"
  proof
    fix u assume u: "u \<in> set ts"
    show "fmdom t |\<inter>| fmdom u = {||}"
    proof (rule ccontr)
      assume "fmdom t |\<inter>| fmdom u \<noteq> {||}"
      then obtain p where "p |\<in>| fmdom t" "p |\<in>| fmdom u" by auto
      with u have "p |\<in>| fmdom t |\<inter>| fmdom (union_trees ts)"
        by (auto simp: fmdom_union_trees)
      with l show False by simp
    qed
  qed
next
  assume r: "\<forall>u \<in> set ts. fmdom t |\<inter>| fmdom u = {||}"
  show "fmdom t |\<inter>| fmdom (union_trees ts) = {||}"
  proof (rule ccontr)
    assume "fmdom t |\<inter>| fmdom (union_trees ts) \<noteq> {||}"
    then obtain p where p: "p |\<in>| fmdom t" "p |\<in>| fmdom (union_trees ts)" by auto
    then obtain u where "u \<in> set ts" "p |\<in>| fmdom u" by (auto simp: fmdom_union_trees)
    with p(1) have "fmdom t |\<inter>| fmdom u \<noteq> {||}" by auto
    with r \<open>u \<in> set ts\<close> show False by simp
  qed
qed

lemma combine_disjoint_trees:
  "combine ts = (if disjoint_trees ts then Inr (union_trees ts) else Inl MergeConflictError)"
proof (induction ts)
  case Nil
  show ?case by (simp add: union_trees_def)
next
  case (Cons t ts)
  show ?case
  proof (cases "disjoint_trees ts")
    case True
    with Cons.IH have "combine ts = Inr (union_trees ts)" by simp
    then show ?thesis using True disjoint_from_union[of t ts]
      by (simp add: union_trees_def)
  next
    case False
    with Cons.IH show ?thesis by simp
  qed
qed

lemma disjoint_trees_nth:
  "disjoint_trees ts \<longleftrightarrow>
   (\<forall>i j. i < j \<and> j < length ts \<longrightarrow> fmdom (ts ! i) |\<inter>| fmdom (ts ! j) = {||})"
proof (induction ts)
  case Nil
  show ?case by simp
next
  case (Cons t ts)
  let ?D = "\<lambda>a b. fmdom a |\<inter>| fmdom b = {||}"
  have "(\<forall>i j. i < j \<and> j < length (t # ts) \<longrightarrow> ?D ((t # ts) ! i) ((t # ts) ! j)) \<longleftrightarrow>
        (\<forall>j < length ts. ?D t (ts ! j)) \<and>
        (\<forall>i j. i < j \<and> j < length ts \<longrightarrow> ?D (ts ! i) (ts ! j))"
    (is "?L \<longleftrightarrow> ?A \<and> ?B")
  proof (intro iffI conjI allI impI)
    fix j assume L: ?L and j: "j < length ts"
    from L[rule_format, of 0 "Suc j"] j show "?D t (ts ! j)" by simp
  next
    fix i j assume L: ?L and ij: "i < j \<and> j < length ts"
    from L[rule_format, of "Suc i" "Suc j"] ij show "?D (ts ! i) (ts ! j)" by simp
  next
    fix i j assume ab: "?A \<and> ?B" and ij: "i < j \<and> j < length (t # ts)"
    then obtain j' where j: "j = Suc j'" "j' < length ts" by (cases j) auto
    show "?D ((t # ts) ! i) ((t # ts) ! j)"
    proof (cases i)
      case 0
      with ab j show ?thesis by simp
    next
      case (Suc i')
      with ij j have "i' < j' \<and> j' < length ts" by simp
      with ab have "?D (ts ! i') (ts ! j')" by blast
      with Suc j show ?thesis by simp
    qed
  qed
  moreover have "(\<forall>u \<in> set ts. ?D t u) \<longleftrightarrow> (\<forall>j < length ts. ?D t (ts ! j))"
    by (simp add: all_set_conv_all_nth)
  ultimately show ?case using Cons.IH by simp
qed

lemma providers_Cons:
  "length (providers p (t # ts)) \<le> 1 \<longleftrightarrow>
   (p |\<in>| fmdom t \<longrightarrow> providers p ts = []) \<and> length (providers p ts) \<le> 1"
  by (cases "p |\<in>| fmdom t") (auto simp: providers_def)

lemma providers_empty:
  "(\<forall>p. p |\<in>| fmdom t \<longrightarrow> providers p ts = []) \<longleftrightarrow>
   (\<forall>u \<in> set ts. fmdom t |\<inter>| fmdom u = {||})"
proof
  assume l: "\<forall>p. p |\<in>| fmdom t \<longrightarrow> providers p ts = []"
  show "\<forall>u \<in> set ts. fmdom t |\<inter>| fmdom u = {||}"
  proof
    fix u assume u: "u \<in> set ts"
    show "fmdom t |\<inter>| fmdom u = {||}"
    proof (rule ccontr)
      assume "fmdom t |\<inter>| fmdom u \<noteq> {||}"
      then obtain p where p: "p |\<in>| fmdom t" "p |\<in>| fmdom u" by auto
      with u have "u \<in> set (providers p ts)" by (simp add: providers_def)
      moreover from l p(1) have "providers p ts = []" by blast
      ultimately show False by simp
    qed
  qed
next
  assume r: "\<forall>u \<in> set ts. fmdom t |\<inter>| fmdom u = {||}"
  show "\<forall>p. p |\<in>| fmdom t \<longrightarrow> providers p ts = []"
  proof (intro allI impI)
    fix p assume p: "p |\<in>| fmdom t"
    have "\<forall>u \<in> set ts. p |\<notin>| fmdom u"
    proof
      fix u assume "u \<in> set ts"
      with r have "fmdom t |\<inter>| fmdom u = {||}" by blast
      with p show "p |\<notin>| fmdom u" by auto
    qed
    then show "providers p ts = []" by (simp add: providers_def)
  qed
qed

lemma disjoint_trees_providers:
  "disjoint_trees ts \<longleftrightarrow> (\<forall>p. length (providers p ts) \<le> 1)"
proof (induction ts)
  case Nil
  show ?case by (simp add: providers_def)
next
  case (Cons t ts)
  have "(\<forall>p. length (providers p (t # ts)) \<le> 1) \<longleftrightarrow>
        (\<forall>p. p |\<in>| fmdom t \<longrightarrow> providers p ts = []) \<and> (\<forall>p. length (providers p ts) \<le> 1)"
    unfolding providers_Cons by blast
  then show ?case unfolding providers_empty using Cons.IH by simp
qed

lemma disjoint_trees_mset: "mset ts' = mset ts \<Longrightarrow> disjoint_trees ts' = disjoint_trees ts"
proof -
  assume m: "mset ts' = mset ts"
  have l: "length (providers p xs) = size (filter_mset (\<lambda>t. p |\<in>| fmdom t) (mset xs))" for p xs
    unfolding providers_def by (metis mset_filter size_mset)
  have "length (providers p ts') = length (providers p ts)" for p
    unfolding l m ..
  then show ?thesis unfolding disjoint_trees_providers by simp
qed

lemma lookup_union_trees:
  "disjoint_trees ts \<Longrightarrow>
   fmlookup (union_trees ts) p = Some v \<longleftrightarrow> (\<exists>t \<in> set ts. fmlookup t p = Some v)"
proof (induction ts)
  case Nil
  show ?case by (simp add: union_trees_def)
next
  case (Cons t ts)
  then have d: "\<forall>u \<in> set ts. fmdom t |\<inter>| fmdom u = {||}" and ih:
    "fmlookup (union_trees ts) p = Some v \<longleftrightarrow> (\<exists>t \<in> set ts. fmlookup t p = Some v)"
    by simp_all
  have u: "union_trees (t # ts) = t ++\<^sub>f union_trees ts" by (simp add: union_trees_def)
  show ?case
  proof (cases "p |\<in>| fmdom (union_trees ts)")
    case True
    then obtain u where "u \<in> set ts" "p |\<in>| fmdom u" by (auto simp: fmdom_union_trees)
    with d have "p |\<notin>| fmdom t" by auto
    then have "fmlookup t p = None" by (rule fmdom_notD)
    with True ih show ?thesis by (simp add: u)
  next
    case False
    then have "\<forall>u \<in> set ts. p |\<notin>| fmdom u" by (auto simp: fmdom_union_trees)
    then have "\<forall>u \<in> set ts. fmlookup u p = None" by (auto dest: fmdom_notD)
    with False show ?thesis by (simp add: u)
  qed
qed

lemma union_trees_mset:
  assumes "mset ts' = mset ts" and "disjoint_trees ts"
  shows "union_trees ts' = union_trees ts"
proof (rule fmap_ext)
  fix p
  from disjoint_trees_mset[OF assms(1)] assms(2) have d: "disjoint_trees ts'" by simp
  from assms(1) have s: "set ts' = set ts" by (rule mset_eq_setD)
  have a: "fmlookup (union_trees ts') p = Some v \<longleftrightarrow> (\<exists>t \<in> set ts. fmlookup t p = Some v)" for v
    using lookup_union_trees[OF d, of p v] unfolding s .
  have b: "fmlookup (union_trees ts) p = Some v \<longleftrightarrow> (\<exists>t \<in> set ts. fmlookup t p = Some v)" for v
    by (rule lookup_union_trees[OF assms(2)])
  have e: "fmlookup (union_trees ts') p = Some v \<longleftrightarrow> fmlookup (union_trees ts) p = Some v" for v
    unfolding a b ..
  show "fmlookup (union_trees ts') p = fmlookup (union_trees ts) p"
  proof (cases "fmlookup (union_trees ts') p")
    case None
    show ?thesis
    proof (cases "fmlookup (union_trees ts) p")
      case None
      with \<open>fmlookup (union_trees ts') p = None\<close> show ?thesis by simp
    next
      case (Some v)
      with e[of v] have "fmlookup (union_trees ts') p = Some v" by simp
      with None show ?thesis by simp
    qed
  next
    case (Some v)
    with e[of v] show ?thesis by simp
  qed
qed

lemma combine_mset:
  assumes "mset ts' = mset ts"
  shows "combine ts' = combine ts"
proof (cases "disjoint_trees ts")
  case True
  moreover from True disjoint_trees_mset[OF assms] have "disjoint_trees ts'" by simp
  moreover from assms True have "union_trees ts' = union_trees ts" by (rule union_trees_mset)
  ultimately show ?thesis by (simp only: combine_disjoint_trees if_True)
next
  case False
  moreover from False disjoint_trees_mset[OF assms] have "\<not> disjoint_trees ts'" by simp
  ultimately show ?thesis by (simp only: combine_disjoint_trees if_False)
qed

text \<open>
  Claim C1, on the combine step as the specification describes it, for any list of
  input trees. If two inputs, at any two positions of the list, contain the same
  path, the combine step fails with a conflict: no input overwrites another. If the
  inputs are pairwise disjoint, the result is their union: it holds a file exactly
  when one of the inputs holds it. In both cases the result does not depend on the
  order of the inputs. The same for two inputs \<open>a\<close> and \<open>b\<close>, written out.
\<close>

theorem combine_conflict_or_union:
  "((\<exists>i j. i < j \<and> j < length ts \<and> fmdom (ts ! i) |\<inter>| fmdom (ts ! j) \<noteq> {||}) \<longrightarrow>
      combine ts = Inl MergeConflictError) \<and>
   ((\<forall>i j. i < j \<and> j < length ts \<longrightarrow> fmdom (ts ! i) |\<inter>| fmdom (ts ! j) = {||}) \<longrightarrow>
      (\<exists>u. combine ts = Inr u \<and>
           (\<forall>p v. fmlookup u p = Some v \<longleftrightarrow> (\<exists>t \<in> set ts. fmlookup t p = Some v)))) \<and>
   (\<forall>ts'. mset ts' = mset ts \<longrightarrow> combine ts' = combine ts) \<and>
   (fmdom a |\<inter>| fmdom b \<noteq> {||} \<longrightarrow>
      combine [a, b] = Inl MergeConflictError \<and> combine [b, a] = Inl MergeConflictError) \<and>
   (fmdom a |\<inter>| fmdom b = {||} \<longrightarrow>
      combine [a, b] = Inr (a ++\<^sub>f b) \<and> combine [b, a] = combine [a, b] \<and>
      fmdom (a ++\<^sub>f b) = fmdom a |\<union>| fmdom b \<and>
      (\<forall>p v. fmlookup a p = Some v \<longrightarrow> fmlookup (a ++\<^sub>f b) p = Some v) \<and>
      (\<forall>p v. fmlookup b p = Some v \<longrightarrow> fmlookup (a ++\<^sub>f b) p = Some v))"
proof (intro conjI)
  show "(\<exists>i j. i < j \<and> j < length ts \<and> fmdom (ts ! i) |\<inter>| fmdom (ts ! j) \<noteq> {||}) \<longrightarrow>
      combine ts = Inl MergeConflictError"
  proof
    assume "\<exists>i j. i < j \<and> j < length ts \<and> fmdom (ts ! i) |\<inter>| fmdom (ts ! j) \<noteq> {||}"
    then have "\<not> disjoint_trees ts" unfolding disjoint_trees_nth by blast
    then show "combine ts = Inl MergeConflictError" by (simp add: combine_disjoint_trees)
  qed
next
  show "(\<forall>i j. i < j \<and> j < length ts \<longrightarrow> fmdom (ts ! i) |\<inter>| fmdom (ts ! j) = {||}) \<longrightarrow>
      (\<exists>u. combine ts = Inr u \<and>
           (\<forall>p v. fmlookup u p = Some v \<longleftrightarrow> (\<exists>t \<in> set ts. fmlookup t p = Some v)))"
  proof
    assume "\<forall>i j. i < j \<and> j < length ts \<longrightarrow> fmdom (ts ! i) |\<inter>| fmdom (ts ! j) = {||}"
    then have d: "disjoint_trees ts" by (simp add: disjoint_trees_nth)
    then have "combine ts = Inr (union_trees ts)" by (simp add: combine_disjoint_trees)
    with lookup_union_trees[OF d] show "\<exists>u. combine ts = Inr u \<and>
           (\<forall>p v. fmlookup u p = Some v \<longleftrightarrow> (\<exists>t \<in> set ts. fmlookup t p = Some v))"
      by blast
  qed
next
  show "\<forall>ts'. mset ts' = mset ts \<longrightarrow> combine ts' = combine ts"
    by (intro allI impI) (rule combine_mset)
next
  show "fmdom a |\<inter>| fmdom b \<noteq> {||} \<longrightarrow>
      combine [a, b] = Inl MergeConflictError \<and> combine [b, a] = Inl MergeConflictError"
    by (auto simp: inf_commute)
next
  show "fmdom a |\<inter>| fmdom b = {||} \<longrightarrow>
      combine [a, b] = Inr (a ++\<^sub>f b) \<and> combine [b, a] = combine [a, b] \<and>
      fmdom (a ++\<^sub>f b) = fmdom a |\<union>| fmdom b \<and>
      (\<forall>p v. fmlookup a p = Some v \<longrightarrow> fmlookup (a ++\<^sub>f b) p = Some v) \<and>
      (\<forall>p v. fmlookup b p = Some v \<longrightarrow> fmlookup (a ++\<^sub>f b) p = Some v)"
  proof (intro impI conjI allI)
    assume d: "fmdom a |\<inter>| fmdom b = {||}"
    then show "combine [a, b] = Inr (a ++\<^sub>f b)" by simp
    have "mset [b, a] = mset [a, b]" by simp
    then show "combine [b, a] = combine [a, b]" by (rule combine_mset)
    show "fmdom (a ++\<^sub>f b) = fmdom a |\<union>| fmdom b" by simp
    fix p v
    { assume l: "fmlookup a p = Some v"
      with d have "p |\<notin>| fmdom b" by (auto dest: fmdomI)
      with l show "fmlookup (a ++\<^sub>f b) p = Some v" by simp }
    { assume "fmlookup b p = Some v"
      then show "fmlookup (a ++\<^sub>f b) p = Some v" by (simp add: fmdomI) }
  qed
qed

theorem combine_conflict_or_union_witness:
  "combine [fmupd ''a'' ''x'' fmempty, fmupd ''b'' ''y'' fmempty, fmupd ''a'' ''z'' fmempty] =
     Inl MergeConflictError \<and>
   (\<exists>u. combine [fmupd ''a'' ''x'' fmempty, fmupd ''b'' ''y'' fmempty, fmupd ''c'' ''z'' fmempty] =
          Inr u \<and>
        fmlookup u ''a'' = Some ''x'' \<and> fmlookup u ''b'' = Some ''y'' \<and>
        fmlookup u ''c'' = Some ''z'' \<and> fmlookup u ''d'' = None) \<and>
   combine [fmupd ''c'' ''z'' fmempty, fmupd ''a'' ''x'' fmempty, fmupd ''b'' ''y'' fmempty] =
     combine [fmupd ''a'' ''x'' fmempty, fmupd ''b'' ''y'' fmempty, fmupd ''c'' ''z'' fmempty] \<and>
   combine [fmupd ''a'' ''x'' fmempty, fmupd ''b'' ''y'' fmempty] =
     Inr (fmupd ''a'' ''x'' fmempty ++\<^sub>f fmupd ''b'' ''y'' fmempty) \<and>
   combine [fmupd ''b'' ''y'' fmempty, fmupd ''a'' ''x'' fmempty] =
     combine [fmupd ''a'' ''x'' fmempty, fmupd ''b'' ''y'' fmempty] \<and>
   combine [fmupd ''a'' ''x'' fmempty, fmupd ''a'' ''y'' fmempty] = Inl MergeConflictError"
proof -
  let ?A = "fmupd ''a'' ''x'' fmempty :: tree"
  let ?B = "fmupd ''b'' ''y'' fmempty :: tree"
  let ?C = "fmupd ''c'' ''z'' fmempty :: tree"
  let ?Z = "fmupd ''a'' ''z'' fmempty :: tree"
  let ?Y = "fmupd ''a'' ''y'' fmempty :: tree"
  have c: "\<exists>i j. i < j \<and> j < length [?A, ?B, ?Z] \<and>
      fmdom ([?A, ?B, ?Z] ! i) |\<inter>| fmdom ([?A, ?B, ?Z] ! j) \<noteq> {||}"
    by (intro exI[of _ 0] exI[of _ 2]) simp
  have d: "\<forall>i j. i < j \<and> j < length [?A, ?B, ?C] \<longrightarrow>
      fmdom ([?A, ?B, ?C] ! i) |\<inter>| fmdom ([?A, ?B, ?C] ! j) = {||}"
    unfolding disjoint_trees_nth[symmetric] by simp
  have 1: "combine [?A, ?B, ?Z] = Inl MergeConflictError"
    by (rule combine_conflict_or_union[of "[?A, ?B, ?Z]", THEN conjunct1, rule_format, OF c])
  from combine_conflict_or_union[of "[?A, ?B, ?C]", THEN conjunct2, THEN conjunct1,
      THEN mp, OF d]
  obtain u where u: "combine [?A, ?B, ?C] = Inr u"
    and l: "\<And>p v. fmlookup u p = Some v \<longleftrightarrow> (\<exists>t \<in> set [?A, ?B, ?C]. fmlookup t p = Some v)"
    by blast
  have "fmlookup u ''a'' = Some ''x''" "fmlookup u ''b'' = Some ''y''"
    "fmlookup u ''c'' = Some ''z''"
    unfolding l by simp_all
  moreover have "fmlookup u ''d'' = None"
  proof (cases "fmlookup u ''d''")
    case None
    then show ?thesis .
  next
    case (Some v)
    then show ?thesis unfolding l by simp
  qed
  ultimately have 2: "\<exists>u. combine [?A, ?B, ?C] = Inr u \<and>
        fmlookup u ''a'' = Some ''x'' \<and> fmlookup u ''b'' = Some ''y'' \<and>
        fmlookup u ''c'' = Some ''z'' \<and> fmlookup u ''d'' = None"
    using u by blast
  have m: "mset [?C, ?A, ?B] = mset [?A, ?B, ?C]" by simp
  have 3: "combine [?C, ?A, ?B] = combine [?A, ?B, ?C]"
    by (rule combine_conflict_or_union[of "[?A, ?B, ?C]", THEN conjunct2, THEN conjunct2,
          THEN conjunct1, rule_format, OF m])
  have dp: "fmdom ?A |\<inter>| fmdom ?B = {||}" by simp
  have cp: "fmdom ?A |\<inter>| fmdom ?Y \<noteq> {||}" by simp
  note p = combine_conflict_or_union[where a = ?A and b = ?B, THEN conjunct2, THEN conjunct2,
      THEN conjunct2, THEN conjunct2, rule_format, OF dp]
  note q = combine_conflict_or_union[where a = ?A and b = ?Y, THEN conjunct2, THEN conjunct2,
      THEN conjunct2, THEN conjunct1, rule_format, OF cp]
  from p have 4: "combine [?A, ?B] = Inr (?A ++\<^sub>f ?B)" and 5: "combine [?B, ?A] = combine [?A, ?B]"
    by blast+
  from q have 6: "combine [?A, ?Y] = Inl MergeConflictError" by blast
  from 1 2 3 4 5 6 show ?thesis by (intro conjI)
qed

end
